theory Spec2Isabelle
  imports Complex_Main "HOL-Library.AList"
begin

section \<open>FileSystemCacheMsgspec: a file-backed cache\<close>

text \<open>
  Embedding of \<^verbatim>\<open>src/flask_caching/contrib/filesystemcachemsgspec.py\<close>.

  Python values are a closed datatype; \<open>PObj\<close> stands for an object of a type
  that supports none of the operators used here. A key is the byte string
  that is hashed. Time stamps returned by \<^verbatim>\<open>time()\<close> are exact rationals, and
  one operation reads one clock value \<open>now\<close>.

  The cache directory is an association list from file names (relative to
  \<^verbatim>\<open>self._path\<close>) to file contents. Its order is the order of \<^verbatim>\<open>os.listdir\<close>;
  a new name is appended. Permission bits and logging are not part of the
  state, and creating the directory in the constructor is left out.
\<close>

subsection \<open>Values, exceptions, environment\<close>

datatype pyval = PNone | PInt int | PStr string | PList "pyval list" | PObj nat

datatype exn = OSError | FileNotFoundError | TypeError | ValueError
  | EncodeError | DecodeError | ZlibError

type_synonym bytes = "nat list"

type_synonym fs = "(string \<times> bytes) list"

datatype fsop = OpOpenW string | OpWrite string | OpRead string | OpRemove string
  | OpReplace string string | OpChmod string | OpListdir

text \<open>
  The libraries the class calls (\<^verbatim>\<open>msgspec.msgpack\<close>, \<^verbatim>\<open>zlib\<close>) and the
  I/O errors of the operating system are parameters: \<open>None\<close> from a codec function
  is a raised exception, and \<open>faults\<close> tells which system calls fail.
\<close>

record env =
  msgpack_encode :: "pyval \<Rightarrow> bytes option"
  msgpack_decode :: "bytes \<Rightarrow> pyval option"
  zlib_compress :: "int \<Rightarrow> bytes \<Rightarrow> bytes option"
  zlib_decompress :: "bytes \<Rightarrow> bytes option"
  faults :: "fsop \<Rightarrow> bool"

text \<open>The constructor's arguments that an operation consults.\<close>

record config =
  threshold :: int
  default_timeout :: rat
  hash_method :: "string \<Rightarrow> string"
  compress :: bool
  compress_level :: int

definition fs_transaction_suffix :: string where
  "fs_transaction_suffix = ''.__wz_cache''"

definition fs_count_file :: string where
  "fs_count_file = ''__wz_cache_count''"

subsection \<open>System calls\<close>

definition os_path_exists :: "fs \<Rightarrow> string \<Rightarrow> bool" where
  "os_path_exists d name = (map_of d name \<noteq> None)"

definition os_listdir :: "env \<Rightarrow> fs \<Rightarrow> exn + string list" where
  "os_listdir E d = (if faults E OpListdir then Inl OSError else Inr (map fst d))"

definition open_rb_read :: "env \<Rightarrow> string \<Rightarrow> fs \<Rightarrow> exn + bytes" where
  "open_rb_read E name d =
     (case map_of d name of
        None \<Rightarrow> Inl FileNotFoundError
      | Some b \<Rightarrow> if faults E (OpRead name) then Inl OSError else Inr b)"

text \<open>\<^verbatim>\<open>open(name, "wb")\<close> creates the file or truncates it.\<close>

definition open_wb :: "env \<Rightarrow> string \<Rightarrow> fs \<Rightarrow> exn + fs" where
  "open_wb E name d =
     (if faults E (OpOpenW name) then Inl OSError else Inr (AList.update name [] d))"

definition file_write :: "env \<Rightarrow> string \<Rightarrow> bytes \<Rightarrow> fs \<Rightarrow> exn + fs" where
  "file_write E name b d =
     (if faults E (OpWrite name) then Inl OSError else Inr (AList.update name b d))"

definition os_remove :: "env \<Rightarrow> string \<Rightarrow> fs \<Rightarrow> exn + fs" where
  "os_remove E name d =
     (case map_of d name of
        None \<Rightarrow> Inl FileNotFoundError
      | Some b \<Rightarrow> if faults E (OpRemove name) then Inl OSError
                 else Inr (AList.delete name d))"

definition os_replace :: "env \<Rightarrow> string \<Rightarrow> string \<Rightarrow> fs \<Rightarrow> exn + fs" where
  "os_replace E src dst d =
     (case map_of d src of
        None \<Rightarrow> Inl FileNotFoundError
      | Some b \<Rightarrow> if faults E (OpReplace src dst) then Inl OSError
                 else Inr (AList.update dst b (AList.delete src d)))"

definition os_chmod :: "env \<Rightarrow> string \<Rightarrow> fs \<Rightarrow> exn + unit" where
  "os_chmod E name d =
     (case map_of d name of
        None \<Rightarrow> Inl FileNotFoundError
      | Some b \<Rightarrow> if faults E (OpChmod name) then Inl OSError else Inr ())"

subsection \<open>Python operators on values\<close>

text \<open>\<^verbatim>\<open>int(x)\<close> truncates towards zero.\<close>

definition py_int :: "rat \<Rightarrow> int" where
  "py_int x = (if 0 \<le> x then \<lfloor>x\<rfloor> else \<lceil>x\<rceil>)"

fun py_truthy :: "pyval \<Rightarrow> bool" where
  "py_truthy PNone = False"
| "py_truthy (PInt i) = (i \<noteq> 0)"
| "py_truthy (PStr s) = (s \<noteq> [])"
| "py_truthy (PList xs) = (xs \<noteq> [])"
| "py_truthy (PObj n) = True"

text \<open>\<^verbatim>\<open>x or 0\<close>\<close>

definition py_or0 :: "pyval \<Rightarrow> pyval" where
  "py_or0 v = (if py_truthy v then v else PInt 0)"

text \<open>\<^verbatim>\<open>x + delta\<close> for an integer \<open>delta\<close>\<close>

fun py_add_int :: "pyval \<Rightarrow> int \<Rightarrow> exn + pyval" where
  "py_add_int (PInt i) d = Inr (PInt (i + d))"
| "py_add_int v d = Inl TypeError"

text \<open>\<^verbatim>\<open>x > threshold\<close> for an integer threshold\<close>

fun py_gt_int :: "pyval \<Rightarrow> int \<Rightarrow> exn + bool" where
  "py_gt_int (PInt i) t = Inr (i > t)"
| "py_gt_int v t = Inl TypeError"

text \<open>\<^verbatim>\<open>expires != 0 and expires < now\<close>: a value that is not a number is different
  from 0 and cannot be compared with a float.\<close>

fun py_expired_lt :: "pyval \<Rightarrow> rat \<Rightarrow> exn + bool" where
  "py_expired_lt (PInt i) now = Inr (i \<noteq> 0 \<and> of_int i < now)"
| "py_expired_lt v now = Inl TypeError"

text \<open>\<^verbatim>\<open>expires != 0 and expires <= now\<close>\<close>

fun py_expired_le :: "pyval \<Rightarrow> rat \<Rightarrow> exn + bool" where
  "py_expired_le (PInt i) now = Inr (i \<noteq> 0 \<and> of_int i \<le> now)"
| "py_expired_le v now = Inl TypeError"

text \<open>\<^verbatim>\<open>expires, value = obj\<close>\<close>

fun py_unpack2 :: "pyval \<Rightarrow> exn + pyval \<times> pyval" where
  "py_unpack2 (PList [a, b]) = Inr (a, b)"
| "py_unpack2 (PList xs) = Inl ValueError"
| "py_unpack2 (PStr [a, b]) = Inr (PStr [a], PStr [b])"
| "py_unpack2 (PStr s) = Inl ValueError"
| "py_unpack2 v = Inl TypeError"

subsection \<open>Internal bookkeeping and serialization helpers\<close>

text \<open>Modelled from the spec: \<^verbatim>\<open>BaseCache._normalize_timeout\<close> of
  \<^verbatim>\<open>flask_caching.backends.base\<close> is not among the sources; an absent timeout
  takes the configured default TTL.\<close>

definition base_normalize_timeout :: "config \<Rightarrow> rat option \<Rightarrow> rat" where
  "base_normalize_timeout C timeout =
     (case timeout of None \<Rightarrow> default_timeout C | Some t \<Rightarrow> t)"

definition normalize_timeout :: "config \<Rightarrow> rat \<Rightarrow> rat option \<Rightarrow> int" where
  "normalize_timeout C now timeout =
     (let t = base_normalize_timeout C timeout in
      py_int (if t \<noteq> 0 then now + t else t))"

text \<open>File names are relative to the cache directory, so joining with
  \<^verbatim>\<open>self._path\<close> and taking the last path component cancel out.\<close>

definition get_filename :: "config \<Rightarrow> string \<Rightarrow> string" where
  "get_filename C key = hash_method C key"

text \<open>The name of the reserved management file.\<close>

definition count_filename :: "config \<Rightarrow> string" where
  "count_filename C = get_filename C fs_count_file"

definition endswith :: "string \<Rightarrow> string \<Rightarrow> bool" where
  "endswith s suf = (length suf \<le> length s \<and> drop (length s - length suf) s = suf)"

definition list_dir :: "config \<Rightarrow> env \<Rightarrow> fs \<Rightarrow> exn + string list" where
  "list_dir C E d =
     (let mgmt_files = [get_filename C fs_count_file] in
      case os_listdir E d of
        Inl e \<Rightarrow> Inl e
      | Inr fns \<Rightarrow> Inr (filter (\<lambda>fn. \<not> endswith fn fs_transaction_suffix
                                     \<and> fn \<notin> set mgmt_files) fns))"

definition serialize :: "config \<Rightarrow> env \<Rightarrow> pyval \<Rightarrow> exn + bytes" where
  "serialize C E obj =
     (case msgpack_encode E obj of
        None \<Rightarrow> Inl EncodeError
      | Some b \<Rightarrow>
          if compress C then
            (case zlib_compress E (compress_level C) b of
               None \<Rightarrow> Inl ZlibError
             | Some z \<Rightarrow> Inr z)
          else Inr b)"

text \<open>\<^verbatim>\<open>_deserialize\<close> is only called on what \<^verbatim>\<open>f.read()\<close> returns, which is
  never \<^verbatim>\<open>None\<close>.\<close>

definition deserialize :: "config \<Rightarrow> env \<Rightarrow> bytes \<Rightarrow> exn + pyval" where
  "deserialize C E b =
     (case (if compress C then zlib_decompress E b else Some b) of
        None \<Rightarrow> Inl ZlibError
      | Some raw \<Rightarrow>
          (case msgpack_decode E raw of
             None \<Rightarrow> Inl DecodeError
           | Some v \<Rightarrow> Inr v))"

text \<open>The statement shared by \<^verbatim>\<open>get\<close> and \<^verbatim>\<open>_prune\<close>:
  \<^verbatim>\<open>with open(fname, "rb") as f: expires, value = self._deserialize(f.read())\<close>\<close>

definition read_entry :: "config \<Rightarrow> env \<Rightarrow> string \<Rightarrow> fs \<Rightarrow> exn + pyval \<times> pyval" where
  "read_entry C E fname d =
     (case open_rb_read E fname d of
        Inl e \<Rightarrow> Inl e
      | Inr b \<Rightarrow>
          (case deserialize C E b of
             Inl e \<Rightarrow> Inl e
           | Inr obj \<Rightarrow> py_unpack2 obj))"

subsection \<open>Writing an entry\<close>

definition tmp_name :: "string \<Rightarrow> string" where
  "tmp_name filename = filename @ ''.__tmp''"

text \<open>The body of the \<^verbatim>\<open>try\<close> block of \<^verbatim>\<open>set\<close>. The result is the exception
  that left the block, or \<^verbatim>\<open>is_new_file\<close>; the directory is returned as the block
  left it.\<close>

definition set_write :: "env \<Rightarrow> string \<Rightarrow> bytes \<Rightarrow> fs \<Rightarrow> (exn + bool) \<times> fs" where
  "set_write E filename b d =
     (let tmpname = tmp_name filename in
      case open_wb E tmpname d of
        Inl e \<Rightarrow> (Inl e, d)
      | Inr d1 \<Rightarrow>
      (case file_write E tmpname b d1 of
        Inl e \<Rightarrow> (Inl e, d1)
      | Inr d2 \<Rightarrow>
      (let is_new_file = \<not> os_path_exists d2 filename in
       case (if \<not> is_new_file then os_remove E filename d2 else Inr d2) of
        Inl e \<Rightarrow> (Inl e, d2)
      | Inr d3 \<Rightarrow>
      (case os_replace E tmpname filename d3 of
        Inl e \<Rightarrow> (Inl e, d3)
      | Inr d4 \<Rightarrow>
      (case os_chmod E filename d4 of
        Inl e \<Rightarrow> (Inl e, d4)
      | Inr u \<Rightarrow> (Inr is_new_file, d4))))))"

text \<open>\<^verbatim>\<open>set(key, value, mgmt_element=True)\<close>: the timeout is forced to 0, there is no
  pruning before and no counting after the write. Serialization happens before
  the \<^verbatim>\<open>try\<close> block, so its exception leaves the method.\<close>

definition set_mgmt :: "config \<Rightarrow> env \<Rightarrow> rat \<Rightarrow> string \<Rightarrow> pyval \<Rightarrow> fs \<Rightarrow> (exn + bool) \<times> fs" where
  "set_mgmt C E now key v d =
     (let timeout = normalize_timeout C now (Some 0);
          filename = get_filename C key in
      case serialize C E (PList [PInt timeout, v]) of
        Inl e \<Rightarrow> (Inl e, d)
      | Inr b \<Rightarrow>
          (case set_write E filename b d of
             (Inl e, d') \<Rightarrow> (Inr False, d')
           | (Inr is_new_file, d') \<Rightarrow> (Inr True, d')))"

subsection \<open>get, delete and the counter\<close>

text \<open>A successful \<^verbatim>\<open>os.remove\<close> shrinks the directory.\<close>

lemma os_remove_length: "os_remove E name d = Inr d' \<Longrightarrow> length d' < length d"
proof -
  assume a: "os_remove E name d = Inr d'"
  then obtain b where b: "map_of d name = Some b" and d': "d' = AList.delete name d"
    by (auto simp: os_remove_def split: option.splits if_splits)
  from b have "(name, b) \<in> set d" by (rule map_of_SomeD)
  then have "length (filter (\<lambda>(k, _). name \<noteq> k) d) < length d"
    by (intro length_filter_less [of "(name, b)"]) auto
  then show ?thesis using d' by (simp add: AList.delete_eq)
qed


text \<open>\<^verbatim>\<open>get\<close> deletes a stale entry, \<^verbatim>\<open>delete\<close> updates the counter, and
  \<^verbatim>\<open>_update_count\<close> reads the counter through \<^verbatim>\<open>get\<close> (the property
  \<^verbatim>\<open>_file_count\<close>). \<^verbatim>\<open>delete\<close> catches every exception, including those of the
  counter update.\<close>

function get :: "config \<Rightarrow> env \<Rightarrow> rat \<Rightarrow> string \<Rightarrow> fs \<Rightarrow> pyval \<times> fs"
  and delete :: "config \<Rightarrow> env \<Rightarrow> rat \<Rightarrow> string \<Rightarrow> bool \<Rightarrow> fs \<Rightarrow> bool \<times> fs"
  and update_count :: "config \<Rightarrow> env \<Rightarrow> rat \<Rightarrow> int option \<Rightarrow> int option \<Rightarrow> fs \<Rightarrow> (exn + unit) \<times> fs"
where
  "get C E now key d =
     (case read_entry C E (get_filename C key) d of
        Inl e \<Rightarrow> (PNone, d)
      | Inr (expires, v) \<Rightarrow>
          (case py_expired_lt expires now of
             Inl e \<Rightarrow> (PNone, d)
           | Inr stale \<Rightarrow>
               if stale then (PNone, snd (delete C E now key False d))
               else (v, d)))"
| "delete C E now key mgmt_element d =
     (case os_remove E (get_filename C key) d of
        Inl e \<Rightarrow> (False, d)
      | Inr d1 \<Rightarrow>
          if \<not> mgmt_element then
            (case update_count C E now (Some (- 1)) None d1 of
               (Inl e, d2) \<Rightarrow> (False, d2)
             | (Inr u, d2) \<Rightarrow> (True, d2))
          else (True, d1))"
| "update_count C E now delta val d =
     (if threshold C = 0 then (Inr (), d)
      else if delta \<noteq> None \<and> delta \<noteq> Some 0 then
        (case get C E now fs_count_file d of
           (cnt, d1) \<Rightarrow>
             (case py_add_int (py_or0 cnt) (the delta) of
                Inl e \<Rightarrow> (Inl e, d1)
              | Inr new_count \<Rightarrow>
                  (case set_mgmt C E now fs_count_file new_count d1 of
                     (Inl e, d2) \<Rightarrow> (Inl e, d2)
                   | (Inr ok, d2) \<Rightarrow> (Inr (), d2))))
      else
        (case set_mgmt C E now fs_count_file
                (PInt (case val of None \<Rightarrow> 0 | Some n \<Rightarrow> n)) d of
           (Inl e, d2) \<Rightarrow> (Inl e, d2)
         | (Inr ok, d2) \<Rightarrow> (Inr (), d2)))"
  by pat_completeness auto

termination
  apply (relation "measures [
      (\<lambda>x. case x of Inl (C, E, now, key, d) \<Rightarrow> length d
                  | Inr (Inl (C, E, now, key, m, d)) \<Rightarrow> length d
                  | Inr (Inr (C, E, now, dl, v, d)) \<Rightarrow> length d),
      (\<lambda>x. case x of Inl _ \<Rightarrow> 1 | Inr (Inl _) \<Rightarrow> 0 | Inr (Inr _) \<Rightarrow> (2::nat))]")
     apply (auto dest: os_remove_length)
  done

declare get.simps [simp del] delete.simps [simp del] update_count.simps [simp del]

text \<open>The property \<^verbatim>\<open>_file_count\<close>: \<^verbatim>\<open>self.get(self._fs_count_file) or 0\<close>\<close>

definition file_count :: "config \<Rightarrow> env \<Rightarrow> rat \<Rightarrow> fs \<Rightarrow> pyval \<times> fs" where
  "file_count C E now d =
     (case get C E now fs_count_file d of (cnt, d1) \<Rightarrow> (py_or0 cnt, d1))"

subsection \<open>Eviction\<close>

text \<open>One iteration of the loop of \<^verbatim>\<open>_prune\<close>; every exception is swallowed.\<close>

definition prune_step :: "config \<Rightarrow> env \<Rightarrow> rat \<Rightarrow> nat \<Rightarrow> string \<Rightarrow> fs \<Rightarrow> fs" where
  "prune_step C E now idx fname d =
     (case read_entry C E fname d of
        Inl e \<Rightarrow> d
      | Inr (expires, v) \<Rightarrow>
          (case py_expired_le expires now of
             Inl e \<Rightarrow> d
           | Inr stale \<Rightarrow>
               if stale \<or> idx mod 3 = 0 then
                 (case os_remove E fname d of Inl e \<Rightarrow> d | Inr d' \<Rightarrow> d')
               else d))"

fun prune_loop :: "config \<Rightarrow> env \<Rightarrow> rat \<Rightarrow> nat \<Rightarrow> string list \<Rightarrow> fs \<Rightarrow> fs" where
  "prune_loop C E now idx [] d = d"
| "prune_loop C E now idx (fname # entries) d =
     prune_loop C E now (Suc idx) entries (prune_step C E now idx fname d)"

definition prune :: "config \<Rightarrow> env \<Rightarrow> rat \<Rightarrow> fs \<Rightarrow> (exn + unit) \<times> fs" where
  "prune C E now d =
     (if threshold C = 0 then (Inr (), d)
      else
        (case file_count C E now d of
           (cnt, d1) \<Rightarrow>
             (case py_gt_int cnt (threshold C) of
                Inl e \<Rightarrow> (Inl e, d1)
              | Inr over \<Rightarrow>
                  if \<not> over then (Inr (), d1)
                  else
                    (case list_dir C E d1 of
                       Inl e \<Rightarrow> (Inl e, d1)
                     | Inr entries \<Rightarrow>
                         (let d2 = prune_loop C E now 0 entries d1 in
                          case list_dir C E d2 of
                            Inl e \<Rightarrow> (Inl e, d2)
                          | Inr remaining \<Rightarrow>
                              update_count C E now None
                                (Some (int (length remaining))) d2)))))"

subsection \<open>The public operations\<close>

definition set_op ::
  "config \<Rightarrow> env \<Rightarrow> rat \<Rightarrow> string \<Rightarrow> pyval \<Rightarrow> rat option \<Rightarrow> bool \<Rightarrow> fs \<Rightarrow> (exn + bool) \<times> fs" where
  "set_op C E now key v timeout mgmt_element d =
     (case (if mgmt_element then (Inr (), d) else prune C E now d) of
        (Inl e, d0) \<Rightarrow> (Inl e, d0)
      | (Inr u, d0) \<Rightarrow>
          (let timeout' = normalize_timeout C now (if mgmt_element then Some 0 else timeout);
               filename = get_filename C key in
           case serialize C E (PList [PInt timeout', v]) of
             Inl e \<Rightarrow> (Inl e, d0)
           | Inr b \<Rightarrow>
               (case set_write E filename b d0 of
                  (Inl e, d1) \<Rightarrow> (Inr False, d1)
                | (Inr is_new_file, d1) \<Rightarrow>
                    if \<not> mgmt_element \<and> is_new_file then
                      (case update_count C E now (Some 1) None d1 of
                         (Inl e, d2) \<Rightarrow> (Inl e, d2)
                       | (Inr u, d2) \<Rightarrow> (Inr True, d2))
                    else (Inr True, d1))))"

definition add :: "config \<Rightarrow> env \<Rightarrow> rat \<Rightarrow> string \<Rightarrow> pyval \<Rightarrow> rat option \<Rightarrow> fs \<Rightarrow> (exn + bool) \<times> fs" where
  "add C E now key v timeout d =
     (if \<not> os_path_exists d (get_filename C key)
      then set_op C E now key v timeout False d
      else (Inr False, d))"

text \<open>The loop of \<^verbatim>\<open>clear\<close> over the names listed at its start, with the
  statements that follow it.\<close>

fun clear_loop :: "config \<Rightarrow> env \<Rightarrow> rat \<Rightarrow> string list \<Rightarrow> fs \<Rightarrow> (exn + bool) \<times> fs" where
  "clear_loop C E now [] d =
     (case update_count C E now None (Some 0) d of
        (Inl e, d') \<Rightarrow> (Inl e, d')
      | (Inr u, d') \<Rightarrow> (Inr True, d'))"
| "clear_loop C E now (fname # fnames) d =
     (case os_remove E fname d of
        Inl e \<Rightarrow>
          (case list_dir C E d of
             Inl e' \<Rightarrow> (Inl e', d)
           | Inr remaining \<Rightarrow>
               (case update_count C E now None (Some (int (length remaining))) d of
                  (Inl e', d') \<Rightarrow> (Inl e', d')
                | (Inr u, d') \<Rightarrow> (Inr False, d')))
      | Inr d1 \<Rightarrow> clear_loop C E now fnames d1)"

text \<open>Removing the listed names in turn, up to the first removal that fails:
  what the loop of \<^verbatim>\<open>clear\<close> does to the directory before it stops.\<close>

fun remove_each :: "env \<Rightarrow> string list \<Rightarrow> fs \<Rightarrow> exn + fs" where
  "remove_each E [] d = Inr d"
| "remove_each E (fname # fnames) d =
     (case os_remove E fname d of Inl e \<Rightarrow> Inl e | Inr d1 \<Rightarrow> remove_each E fnames d1)"

definition clear :: "config \<Rightarrow> env \<Rightarrow> rat \<Rightarrow> fs \<Rightarrow> (exn + bool) \<times> fs" where
  "clear C E now d =
     (case list_dir C E d of
        Inl e \<Rightarrow> (Inl e, d)
      | Inr fnames \<Rightarrow> clear_loop C E now fnames d)"

text \<open>The constructor, once the directory exists: the counter is initialised
  from a directory scan, and the result of writing it is not looked at.\<close>

definition init :: "config \<Rightarrow> env \<Rightarrow> rat \<Rightarrow> fs \<Rightarrow> (exn + unit) \<times> fs" where
  "init C E now d =
     (if threshold C \<noteq> 0 then
        (case list_dir C E d of
           Inl e \<Rightarrow> (Inl e, d)
         | Inr fnames \<Rightarrow> update_count C E now None (Some (int (length fnames))) d)
      else (Inr (), d))"

subsection \<open>The states a write passes through\<close>

text \<open>The directory after each statement of the \<^verbatim>\<open>try\<close> block of \<^verbatim>\<open>set\<close>,
  up to the statement that raises.\<close>

definition set_write_trace :: "env \<Rightarrow> string \<Rightarrow> bytes \<Rightarrow> fs \<Rightarrow> fs list" where
  "set_write_trace E filename b d =
     (let tmpname = tmp_name filename in
      d # (case open_wb E tmpname d of
        Inl e \<Rightarrow> []
      | Inr d1 \<Rightarrow> d1 #
      (case file_write E tmpname b d1 of
        Inl e \<Rightarrow> []
      | Inr d2 \<Rightarrow> d2 #
      (case (if os_path_exists d2 filename then os_remove E filename d2 else Inr d2) of
        Inl e \<Rightarrow> []
      | Inr d3 \<Rightarrow> d3 #
      (case os_replace E tmpname filename d3 of
        Inl e \<Rightarrow> []
      | Inr d4 \<Rightarrow> [d4])))))"

subsection \<open>A small environment for running the model\<close>

text \<open>A codec for records whose fields are integers: sign and magnitude of each
  field. Every other object is refused, as msgspec refuses an object of an
  unsupported type.\<close>

fun demo_encode :: "pyval \<Rightarrow> bytes option" where
  "demo_encode (PList [PInt e, PInt n]) =
     Some [if e < 0 then 1 else 0, nat \<bar>e\<bar>, if n < 0 then 1 else 0, nat \<bar>n\<bar>]"
| "demo_encode v = None"

fun demo_decode :: "bytes \<Rightarrow> pyval option" where
  "demo_decode [se, e, sn, n] =
     Some (PList [PInt (if se = 0 then int e else - int e),
                  PInt (if sn = 0 then int n else - int n)])"
| "demo_decode b = None"

definition no_fault :: "fsop \<Rightarrow> bool" where
  "no_fault x = False"

definition demo_env :: env where
  "demo_env = \<lparr> msgpack_encode = demo_encode, msgpack_decode = demo_decode,
                 zlib_compress = (\<lambda>lvl b. Some (0 # b)),
                 zlib_decompress = (\<lambda>b. case b of [] \<Rightarrow> None | x # r \<Rightarrow> Some r),
                 faults = no_fault \<rparr>"

text \<open>A stand-in for the hex digest: the reserved key and three ordinary keys
  get distinct names of equal length.\<close>

definition demo_hash :: "string \<Rightarrow> string" where
  "demo_hash key =
     (if key = fs_count_file then ''c0''
      else if key = ''a'' then ''a1''
      else if key = ''b'' then ''b2''
      else ''d3'')"

definition demo_config :: config where
  "demo_config = \<lparr> threshold = 500, default_timeout = 300, hash_method = demo_hash,
                    compress = False, compress_level = 3 \<rparr>"

text \<open>An operating system on which every \<^verbatim>\<open>os.replace\<close> fails.\<close>

definition replace_fails :: "fsop \<Rightarrow> bool" where
  "replace_fails x = (case x of OpReplace src dst \<Rightarrow> True | _ \<Rightarrow> False)"

text \<open>An operating system on which no file can be opened for writing.\<close>

definition open_w_fails :: "fsop \<Rightarrow> bool" where
  "open_w_fails x = (case x of OpOpenW name \<Rightarrow> True | _ \<Rightarrow> False)"

text \<open>An operating system on which one file cannot be removed.\<close>

definition remove_fails_for :: "string \<Rightarrow> fsop \<Rightarrow> bool" where
  "remove_fails_for name x = (x = OpRemove name)"

subsection \<open>The eviction rule in the words of the specification\<close>



subsection \<open>What may happen to the management file\<close>

text \<open>Between two directories the management file is kept when it is as
  before, or absent, or holds a record of expiry 0 and an integer count.\<close>

abbreviation counter_kept :: "config \<Rightarrow> env \<Rightarrow> fs \<Rightarrow> fs \<Rightarrow> bool" where
  "counter_kept C E d d' \<equiv>
     (map_of d' (count_filename C) = map_of d (count_filename C)
      \<or> map_of d' (count_filename C) = None
      \<or> (\<exists>n b. serialize C E (PList [PInt 0, PInt n]) = Inr b
                \<and> map_of d' (count_filename C) = Some b))"

section \<open>Facts about the model\<close>

subsection \<open>System calls and the write of an entry\<close>

lemma tmp_name_neq: "tmp_name f \<noteq> f"
  by (simp add: tmp_name_def)

lemma open_wb_Inr: "open_wb E n d = Inr d1 \<Longrightarrow> map_of d1 = (map_of d)(n \<mapsto> [])"
  by (auto simp: open_wb_def AList.update_conv' split: if_splits)

lemma file_write_Inr: "file_write E n b d = Inr d1 \<Longrightarrow> map_of d1 = (map_of d)(n \<mapsto> b)"
  by (auto simp: file_write_def AList.update_conv' split: if_splits)

lemma os_remove_Inr:
  "os_remove E n d = Inr d1 \<Longrightarrow> map_of d1 = (map_of d)(n := None) \<and> d1 = AList.delete n d"
  by (auto simp: os_remove_def AList.delete_conv' split: if_splits option.splits)

lemma os_replace_Inr:
  "os_replace E s t d = Inr d1 \<Longrightarrow>
     \<exists>b. map_of d s = Some b \<and> map_of d1 = ((map_of d)(s := None))(t \<mapsto> b)"
  by (auto simp: os_replace_def AList.delete_conv' AList.update_conv' split: if_splits option.splits)

lemma set_write_Inr:
  assumes "set_write E f b d = (Inr n, d')"
  shows "map_of d' = ((map_of d)(tmp_name f := None))(f \<mapsto> b) \<and> n = (map_of d f = None)"
proof -
  let ?t = "tmp_name f"
  from assms obtain d1 d2 d3 where
    1: "open_wb E ?t d = Inr d1" and 2: "file_write E ?t b d1 = Inr d2" and
    3: "(if os_path_exists d2 f then os_remove E f d2 else Inr d2) = Inr d3" and
    4: "os_replace E ?t f d3 = Inr d'" and n: "n = (\<not> os_path_exists d2 f)"
    unfolding set_write_def Let_def by (simp split: sum.splits if_splits)
  have m2: "map_of d2 = (map_of d)(?t \<mapsto> b)"
    using open_wb_Inr [OF 1] file_write_Inr [OF 2] by simp
  have m3: "map_of d3 = (map_of d2)(f := None)"
    using 3 by (auto simp: os_path_exists_def dest: os_remove_Inr split: if_splits)
  from os_replace_Inr [OF 4] obtain b' where
    b': "map_of d3 ?t = Some b'" and m4: "map_of d' = ((map_of d3)(?t := None))(f \<mapsto> b')"
    by blast
  have "b' = b" using b' m3 m2 tmp_name_neq [of f] by simp
  then have "map_of d' = ((map_of d)(?t := None))(f \<mapsto> b)"
    using m4 m3 m2 tmp_name_neq [of f] by (auto simp: fun_eq_iff)
  moreover have "n = (map_of d f = None)"
    using n m2 tmp_name_neq [of f] by (simp add: os_path_exists_def)
  ultimately show ?thesis by simp
qed

lemma set_write_frame:
  "set_write E f b d = (r, d') \<Longrightarrow> x \<noteq> f \<Longrightarrow> x \<noteq> tmp_name f \<Longrightarrow> map_of d' x = map_of d x"
  unfolding set_write_def Let_def
  by (auto split: sum.splits if_splits
      dest!: open_wb_Inr file_write_Inr os_remove_Inr os_replace_Inr)

lemma set_mgmt_frame:
  "set_mgmt C E now key v d = (r, d') \<Longrightarrow>
   x \<noteq> get_filename C key \<Longrightarrow> x \<noteq> tmp_name (get_filename C key) \<Longrightarrow>
   map_of d' x = map_of d x"
  unfolding set_mgmt_def Let_def
  by (auto split: sum.splits prod.splits dest: set_write_frame)

subsection \<open>What the counter update can touch\<close>

text \<open>The counter update changes no file but the management file and its
  temporary sibling; \<^verbatim>\<open>get\<close> and \<^verbatim>\<open>delete\<close> change no file but these and the
  key's own.\<close>

lemma knot_frame:
  "x \<noteq> get_filename C key \<Longrightarrow> x \<noteq> count_filename C \<Longrightarrow> x \<noteq> tmp_name (count_filename C)
     \<Longrightarrow> map_of (snd (get C E now key d)) x = map_of d x"
  "x \<noteq> get_filename C key \<Longrightarrow> x \<noteq> count_filename C \<Longrightarrow> x \<noteq> tmp_name (count_filename C)
     \<Longrightarrow> map_of (snd (delete C E now key m d)) x = map_of d x"
  "x \<noteq> count_filename C \<Longrightarrow> x \<noteq> tmp_name (count_filename C)
     \<Longrightarrow> map_of (snd (update_count C E now dl v d)) x = map_of d x"
proof (induct C E now key d and C E now key m d and C E now dl v d
    rule: get_delete_update_count.induct)
  case (1 C E now key d)
  show ?case
    using 1 by (subst get.simps) (auto split: sum.splits prod.splits)
next
  case (2 C E now key m d)
  show ?case
  proof (cases "os_remove E (get_filename C key) d")
    case (Inl e)
    then show ?thesis by (subst delete.simps) simp
  next
    case (Inr d1)
    have m1: "map_of d1 x = map_of d x"
      using os_remove_Inr [OF Inr] 2(2) by simp
    show ?thesis
    proof (cases m)
      case True
      then show ?thesis using Inr m1 by (subst delete.simps) simp
    next
      case False
      from 2(1) [OF Inr False] 2(3,4)
      have "map_of (snd (update_count C E now (Some (- 1)) None d1)) x = map_of d1 x"
        by simp
      then show ?thesis using Inr m1 False
        by (subst delete.simps) (auto split: sum.splits prod.splits)
    qed
  qed
next
  case (3 C E now dl v d)
  show ?case
    using 3 unfolding count_filename_def
    apply (subst update_count.simps)
    apply (auto split: sum.splits prod.splits dest: set_mgmt_frame)
    done
qed

subsection \<open>Unfolding the counter update\<close>

lemma snd_case_result:
  "snd (case p of (Inl e, d2) \<Rightarrow> (f e, d2) | (Inr ok, d2) \<Rightarrow> (g ok, d2)) = snd p"
  by (auto split: prod.splits sum.splits)

lemma update_count_disabled:
  "threshold C = 0 \<Longrightarrow> update_count C E now dl v d = (Inr (), d)"
  by (subst update_count.simps) simp

lemma update_count_value:
  "threshold C \<noteq> 0 \<Longrightarrow> dl = None \<or> dl = Some 0 \<Longrightarrow>
   update_count C E now dl v d =
     (case set_mgmt C E now fs_count_file (PInt (case v of None \<Rightarrow> 0 | Some n \<Rightarrow> n)) d of
        (Inl e, d2) \<Rightarrow> (Inl e, d2)
      | (Inr ok, d2) \<Rightarrow> (Inr (), d2))"
  by (subst update_count.simps) auto

lemma update_count_delta:
  "threshold C \<noteq> 0 \<Longrightarrow> dl = Some k \<Longrightarrow> k \<noteq> 0 \<Longrightarrow>
   get C E now fs_count_file d = (cnt, d1) \<Longrightarrow>
   update_count C E now dl v d =
     (case py_add_int (py_or0 cnt) k of
        Inl e \<Rightarrow> (Inl e, d1)
      | Inr new_count \<Rightarrow>
          (case set_mgmt C E now fs_count_file new_count d1 of
             (Inl e, d2) \<Rightarrow> (Inl e, d2)
           | (Inr ok, d2) \<Rightarrow> (Inr (), d2)))"
  by (subst update_count.simps) simp

subsection \<open>Management writes and reads of live entries\<close>

lemma set_op_mgmt: "set_op C E now key v timeout True d = set_mgmt C E now key v d"
  by (simp add: set_op_def set_mgmt_def Let_def split: sum.splits prod.splits)

lemma normalize_timeout_0: "normalize_timeout C now (Some 0) = 0"
  by (simp add: normalize_timeout_def base_normalize_timeout_def py_int_def)

lemma set_mgmt_True:
  assumes "set_mgmt C E now key v d = (Inr True, d')"
  shows "\<exists>b. serialize C E (PList [PInt 0, v]) = Inr b \<and>
             map_of d' = ((map_of d)(tmp_name (get_filename C key) := None))(get_filename C key \<mapsto> b)"
  using assms unfolding set_mgmt_def Let_def normalize_timeout_0
  by (auto split: sum.splits prod.splits dest: set_write_Inr)

lemma get_live:
  assumes "map_of d (get_filename C key) = Some b"
    and "\<not> faults E (OpRead (get_filename C key))"
    and "deserialize C E b = Inr (PList [PInt t, v])"
    and "\<not> (t \<noteq> 0 \<and> of_int t < now)"
  shows "get C E now key d = (v, d)"
  using assms by (subst get.simps) (auto simp: read_entry_def open_rb_read_def)

subsection \<open>The states of a write\<close>

lemma set_write_last_trace:
  "snd (set_write E f b d) = last (set_write_trace E f b d)"
  unfolding set_write_def set_write_trace_def Let_def
  by (simp split: sum.splits if_splits)

lemma set_write_trace_target:
  assumes "s \<in> set (set_write_trace E f b d)"
  shows "map_of s f = map_of d f \<or> map_of s f = None \<or> map_of s f = Some b"
proof -
  let ?t = "tmp_name f"
  have t: "?t \<noteq> f" by (rule tmp_name_neq)
  show ?thesis
  proof (cases "open_wb E ?t d")
    case (Inl e)
    then show ?thesis using assms by (simp add: set_write_trace_def)
  next
    case d1: (Inr d1)
    have m1: "map_of d1 f = map_of d f" using open_wb_Inr [OF d1] t by simp
    show ?thesis
    proof (cases "file_write E ?t b d1")
      case (Inl e)
      then show ?thesis using assms d1 m1 by (auto simp: set_write_trace_def)
    next
      case d2: (Inr d2)
      have m2: "map_of d2 f = map_of d f" "map_of d2 ?t = Some b"
        using file_write_Inr [OF d2] m1 t by simp_all
      show ?thesis
      proof (cases "if os_path_exists d2 f then os_remove E f d2 else Inr d2")
        case (Inl e)
        then show ?thesis using assms d1 d2 m1 m2 by (auto simp: set_write_trace_def)
      next
        case d3: (Inr d3)
        have m3: "map_of d3 f = map_of d f \<or> map_of d3 f = None"
          using d3 m2 by (auto split: if_splits dest: os_remove_Inr)
        have m3t: "map_of d3 ?t = Some b"
          using d3 m2 t by (auto split: if_splits dest: os_remove_Inr)
        show ?thesis
        proof (cases "os_replace E ?t f d3")
          case (Inl e)
          then show ?thesis using assms d1 d2 d3 m1 m2 m3
            by (auto simp: set_write_trace_def)
        next
          case d4: (Inr d4)
          have m4: "map_of d4 f = Some b"
            using os_replace_Inr [OF d4] m3t by auto
          show ?thesis using assms d1 d2 d3 d4 m1 m2 m3 m4
            by (auto simp: set_write_trace_def)
        qed
      qed
    qed
  qed
qed

subsection \<open>Storing and reading back\<close>

lemma set_op_stores:
  assumes s: "set_op C E now key v timeout False d = (Inr True, d')"
    and safe: "threshold C = 0
      \<or> os_path_exists (snd (prune C E now d)) (get_filename C key)
      \<or> (get_filename C key \<noteq> count_filename C
          \<and> get_filename C key \<noteq> tmp_name (count_filename C))"
  shows "\<exists>b. serialize C E (PList [PInt (normalize_timeout C now timeout), v]) = Inr b
             \<and> map_of d' (get_filename C key) = Some b"
proof -
  let ?f = "get_filename C key"
  let ?rec = "PList [PInt (normalize_timeout C now timeout), v]"
  obtain r0 d0 where p: "prune C E now d = (r0, d0)" by (cases "prune C E now d")
  from s p obtain b where b: "serialize C E ?rec = Inr b"
    by (cases r0; cases "serialize C E ?rec") (simp_all add: set_op_def Let_def)
  obtain rw d1 where w: "set_write E ?f b d0 = (rw, d1)" by (cases "set_write E ?f b d0")
  from s p b w obtain n where n: "rw = Inr n"
    by (cases r0; cases rw) (simp_all add: set_op_def Let_def)
  from set_write_Inr [OF w [unfolded n]]
  have m1: "map_of d1 ?f = Some b" and new: "n = (map_of d0 ?f = None)" by simp_all
  have "map_of d' ?f = map_of d1 ?f"
  proof (cases n)
    case False
    with s p b w n show ?thesis by (cases r0) (simp_all add: set_op_def Let_def)
  next
    case True
    with s p b w n have d': "d' = snd (update_count C E now (Some 1) None d1)"
      by (cases r0) (auto simp: set_op_def Let_def split: prod.splits sum.splits)
    from True new p have "\<not> os_path_exists (snd (prune C E now d)) ?f"
      by (simp add: os_path_exists_def)
    with safe consider "threshold C = 0"
      | "?f \<noteq> count_filename C" "?f \<noteq> tmp_name (count_filename C)"
      by blast
    then show ?thesis
    proof cases
      case 1
      then show ?thesis using d' by (simp add: update_count_disabled)
    next
      case 2
      then show ?thesis using d' knot_frame(3) [of ?f C E now "Some 1" None d1] by simp
    qed
  qed
  with b m1 show ?thesis by simp
qed

lemma set_then_get:
  assumes s: "set_op C E now key v timeout False d = (Inr True, d')"
    and safe: "threshold C = 0
      \<or> os_path_exists (snd (prune C E now d)) (get_filename C key)
      \<or> (get_filename C key \<noteq> count_filename C
          \<and> get_filename C key \<noteq> tmp_name (count_filename C))"
    and codec: "\<forall>b. serialize C E (PList [PInt (normalize_timeout C now timeout), v]) = Inr b
        \<longrightarrow> deserialize C E b = Inr (PList [PInt (normalize_timeout C now timeout), v])"
    and rd: "\<not> faults E (OpRead (get_filename C key))"
    and live: "\<not> (normalize_timeout C now timeout \<noteq> 0
                 \<and> of_int (normalize_timeout C now timeout) < now')"
  shows "get C E now' key d' = (v, d')"
proof -
  from set_op_stores [OF s safe] obtain b where
    b: "serialize C E (PList [PInt (normalize_timeout C now timeout), v]) = Inr b" and
    m: "map_of d' (get_filename C key) = Some b" by blast
  from codec b have "deserialize C E b = Inr (PList [PInt (normalize_timeout C now timeout), v])"
    by blast
  from get_live [OF m rd this live] show ?thesis .
qed

lemma read_entry_exists: "read_entry C E f d = Inr x \<Longrightarrow> map_of d f \<noteq> None"
  by (auto simp: read_entry_def open_rb_read_def split: option.splits)

lemma delete_removes:
  assumes "map_of d (get_filename C key) \<noteq> None"
    and "\<not> faults E (OpRemove (get_filename C key))"
    and f1: "get_filename C key \<noteq> count_filename C"
    and f2: "get_filename C key \<noteq> tmp_name (count_filename C)"
  shows "map_of (snd (delete C E now key False d)) (get_filename C key) = None"
proof -
  let ?f = "get_filename C key"
  from assms(1,2) have r: "os_remove E ?f d = Inr (AList.delete ?f d)"
    by (auto simp: os_remove_def)
  have "snd (delete C E now key False d)
      = snd (update_count C E now (Some (- 1)) None (AList.delete ?f d))"
    using r by (subst delete.simps) (simp split: prod.splits sum.splits)
  then show ?thesis
    using knot_frame(3) [OF f1 f2, of E now "Some (- 1)" None "AList.delete ?f d"]
    by (simp add: AList.delete_conv')
qed

lemma get_stale:
  assumes "read_entry C E (get_filename C key) d = Inr (PInt e, v)"
    and "e \<noteq> 0 \<and> of_int e < now"
  shows "get C E now key d = (PNone, snd (delete C E now key False d))"
  using assms by (subst get.simps) simp

lemma get_not_stale:
  assumes "read_entry C E (get_filename C key) d = Inr (PInt e, v)"
    and "\<not> (e \<noteq> 0 \<and> of_int e < now)"
  shows "get C E now key d = (v, d)"
  using assms by (subst get.simps) auto

lemma add_exists:
  "os_path_exists d (get_filename C key) \<Longrightarrow> add C E now key v t d = (Inr False, d)"
  by (simp add: add_def)

subsection \<open>The loop of clear\<close>

lemma remove_each_Inr:
  "remove_each E ns d = Inr dp \<Longrightarrow> map_of dp x = (if x \<in> set ns then None else map_of d x)"
proof (induction ns arbitrary: d)
  case Nil
  then show ?case by simp
next
  case (Cons n ns)
  from Cons.prems obtain d1 where r: "os_remove E n d = Inr d1" and e: "remove_each E ns d1 = Inr dp"
    by (auto split: sum.splits)
  from Cons.IH [OF e] os_remove_Inr [OF r] show ?case by auto
qed

lemma clear_loop_True:
  "clear_loop C E now ns d = (Inr True, d') \<Longrightarrow>
     \<exists>dp. remove_each E ns d = Inr dp \<and> update_count C E now None (Some 0) dp = (Inr (), d')"
proof (induction ns arbitrary: d)
  case Nil
  then show ?case by (auto split: prod.splits sum.splits)
next
  case (Cons n ns)
  show ?case
  proof (cases "os_remove E n d")
    case (Inl e)
    with Cons.prems show ?thesis by (auto split: prod.splits sum.splits)
  next
    case (Inr d1)
    with Cons.prems have "clear_loop C E now ns d1 = (Inr True, d')" by simp
    from Cons.IH [OF this] Inr show ?thesis by simp
  qed
qed

lemma clear_loop_False:
  "clear_loop C E now ns d = (Inr False, d') \<Longrightarrow>
     \<exists>pre x post dp e remaining.
        ns = pre @ x # post \<and> remove_each E pre d = Inr dp \<and> os_remove E x dp = Inl e
      \<and> list_dir C E dp = Inr remaining
      \<and> update_count C E now None (Some (int (length remaining))) dp = (Inr (), d')"
proof (induction ns arbitrary: d)
  case Nil
  then show ?case by (auto split: prod.splits sum.splits)
next
  case (Cons n ns)
  show ?case
  proof (cases "os_remove E n d")
    case (Inl e)
    with Cons.prems obtain remaining where
      "list_dir C E d = Inr remaining"
      "update_count C E now None (Some (int (length remaining))) d = (Inr (), d')"
      by (auto split: prod.splits sum.splits)
    with Inl have "n # ns = [] @ n # ns \<and> remove_each E [] d = Inr d \<and> os_remove E n d = Inl e
      \<and> list_dir C E d = Inr remaining
      \<and> update_count C E now None (Some (int (length remaining))) d = (Inr (), d')"
      by simp
    then show ?thesis by blast
  next
    case (Inr d1)
    with Cons.prems have "clear_loop C E now ns d1 = (Inr False, d')" by simp
    from Cons.IH [OF this] obtain pre x post dp e remaining where
      h: "ns = pre @ x # post" "remove_each E pre d1 = Inr dp" "os_remove E x dp = Inl e"
        "list_dir C E dp = Inr remaining"
        "update_count C E now None (Some (int (length remaining))) dp = (Inr (), d')"
      by blast
    from h Inr have "n # ns = (n # pre) @ x # post \<and> remove_each E (n # pre) d = Inr dp
      \<and> os_remove E x dp = Inl e \<and> list_dir C E dp = Inr remaining
      \<and> update_count C E now None (Some (int (length remaining))) dp = (Inr (), d')"
      by simp
    then show ?thesis by blast
  qed
qed

lemma list_dir_set:
  assumes "list_dir C E d = Inr ns"
  shows "(x \<in> set ns) = (map_of d x \<noteq> None \<and> \<not> endswith x fs_transaction_suffix
                           \<and> x \<noteq> count_filename C)"
proof -
  have "(map_of d x \<noteq> None) = (x \<in> set (map fst d))"
    by (simp add: map_of_eq_None_iff)
  moreover from assms have "ns = filter (\<lambda>fn. \<not> endswith fn fs_transaction_suffix
                                   \<and> fn \<noteq> count_filename C) (map fst d)"
    by (simp add: list_dir_def os_listdir_def count_filename_def split: if_splits)
  ultimately show ?thesis by (simp del: set_map)
qed

lemma set_write_no_fault:
  assumes nf: "\<forall>op. \<not> faults E op"
  shows "\<exists>n d'. set_write E f b d = (Inr n, d')"
proof -
  let ?t = "tmp_name f"
  have t: "?t \<noteq> f" by (rule tmp_name_neq)
  obtain d1 where 1: "open_wb E ?t d = Inr d1"
    using nf by (simp add: open_wb_def)
  obtain d2 where 2: "file_write E ?t b d1 = Inr d2"
    using nf by (simp add: file_write_def)
  have m2: "map_of d2 ?t = Some b" using file_write_Inr [OF 2] by simp
  have "\<exists>d3. (if os_path_exists d2 f then os_remove E f d2 else Inr d2) = Inr d3"
    using nf by (cases "map_of d2 f") (simp_all add: os_remove_def os_path_exists_def)
  then obtain d3 where 3: "(if os_path_exists d2 f then os_remove E f d2 else Inr d2) = Inr d3"
    by blast
  have m3: "map_of d3 ?t = Some b"
    using 3 m2 t by (auto split: if_splits dest: os_remove_Inr)
  obtain d4 where 4: "os_replace E ?t f d3 = Inr d4"
    using nf m3 by (simp add: os_replace_def)
  have "map_of d4 f \<noteq> None" using os_replace_Inr [OF 4] by auto
  then have 5: "os_chmod E f d4 = Inr ()"
    using nf by (auto simp: os_chmod_def)
  have "set_write E f b d = (Inr (\<not> os_path_exists d2 f), d4)"
    unfolding set_write_def Let_def using 3 by (simp add: 1 2 4 5)
  then show ?thesis by blast
qed

lemma get_absent: "map_of d (get_filename C key) = None \<Longrightarrow> get C E now key d = (PNone, d)"
  by (subst get.simps) (simp add: read_entry_def open_rb_read_def)

lemma update_count_frame:
  "update_count C E now dl v d = (r, d') \<Longrightarrow> x \<noteq> count_filename C \<Longrightarrow>
   x \<noteq> tmp_name (count_filename C) \<Longrightarrow> map_of d' x = map_of d x"
  using knot_frame(3) [of x C E now dl v d] by simp

lemma clear_True_entries:
  assumes c: "clear C E now d = (Inr True, d')"
    and x: "x \<noteq> count_filename C" "x \<noteq> tmp_name (count_filename C)"
      "\<not> endswith x fs_transaction_suffix"
  shows "map_of d' x = None"
proof -
  from c obtain ns where l: "list_dir C E d = Inr ns" and cl: "clear_loop C E now ns d = (Inr True, d')"
    by (auto simp: clear_def split: sum.splits)
  from clear_loop_True [OF cl] obtain dp where
    r: "remove_each E ns d = Inr dp" and u: "update_count C E now None (Some 0) dp = (Inr (), d')"
    by blast
  have "map_of dp x = None"
    using remove_each_Inr [OF r, of x] list_dir_set [OF l, of x] x by auto
  with update_count_frame [OF u x(1,2)] show ?thesis by simp
qed

lemma clear_True_counter:
  assumes c: "clear C E now d = (Inr True, d')"
    and th: "threshold C \<noteq> 0"
    and nf: "\<forall>op. \<not> faults E op"
    and codec: "\<forall>b. serialize C E (PList [PInt 0, PInt 0]) = Inr b
                 \<longrightarrow> deserialize C E b = Inr (PList [PInt 0, PInt 0])"
  shows "file_count C E now' d' = (PInt 0, d') \<and> list_dir C E d' = Inr []"
proof -
  let ?cnt = "count_filename C"
  from c obtain ns where l: "list_dir C E d = Inr ns" and cl: "clear_loop C E now ns d = (Inr True, d')"
    by (auto simp: clear_def split: sum.splits)
  from clear_loop_True [OF cl] obtain dp where
    r: "remove_each E ns d = Inr dp" and u: "update_count C E now None (Some 0) dp = (Inr (), d')"
    by blast
  from u th obtain ok where s: "set_mgmt C E now fs_count_file (PInt 0) dp = (Inr ok, d')"
    by (subst (asm) update_count.simps) (auto split: prod.splits sum.splits)
  have "ok"
  proof -
    from s obtain b where b: "serialize C E (PList [PInt 0, PInt 0]) = Inr b"
      by (auto simp: set_mgmt_def Let_def normalize_timeout_0 split: sum.splits)
    from set_write_no_fault [OF nf, of "get_filename C fs_count_file" b dp]
    show ?thesis using s b
      by (auto simp: set_mgmt_def Let_def normalize_timeout_0 split: sum.splits prod.splits)
  qed
  with s have "set_mgmt C E now fs_count_file (PInt 0) dp = (Inr True, d')" by simp
  from set_mgmt_True [OF this] obtain b where
    b: "serialize C E (PList [PInt 0, PInt 0]) = Inr b" and
    m: "map_of d' = ((map_of dp)(tmp_name ?cnt := None))(?cnt \<mapsto> b)"
    by (auto simp: count_filename_def)
  from codec b have de: "deserialize C E b = Inr (PList [PInt 0, PInt 0])" by blast
  have "get C E now' fs_count_file d' = (PInt 0, d')"
    using m nf de by (intro get_live [where b = b and t = 0]) (simp_all add: count_filename_def)
  then have fc: "file_count C E now' d' = (PInt 0, d')"
    by (simp add: file_count_def py_or0_def)
  have tmp: "map_of d' (tmp_name ?cnt) = None"
    using m tmp_name_neq [of ?cnt] by simp
  have "\<forall>x \<in> set (map fst d'). \<not> (\<not> endswith x fs_transaction_suffix \<and> x \<noteq> ?cnt)"
  proof
    fix x assume "x \<in> set (map fst d')"
    then have ex: "map_of d' x \<noteq> None" by (simp add: map_of_eq_None_iff)
    show "\<not> (\<not> endswith x fs_transaction_suffix \<and> x \<noteq> ?cnt)"
    proof
      assume p: "\<not> endswith x fs_transaction_suffix \<and> x \<noteq> ?cnt"
      show False
      proof (cases "x = tmp_name ?cnt")
        case True
        with tmp ex show False by simp
      next
        case False
        with clear_True_entries [OF c, of x] p ex show False by simp
      qed
    qed
  qed
  then have "filter (\<lambda>fn. \<not> endswith fn fs_transaction_suffix \<and> fn \<noteq> ?cnt) (map fst d') = []"
    by (simp only: filter_empty_conv)
  then have "list_dir C E d' = Inr []"
    using nf by (simp add: list_dir_def os_listdir_def count_filename_def del: set_map)
  with fc show ?thesis by simp
qed

lemma clear_False_shape:
  assumes c: "clear C E now d = (Inr False, d')"
  shows "\<exists>pre x post dp e remaining.
           list_dir C E d = Inr (pre @ x # post)
         \<and> remove_each E pre d = Inr dp
         \<and> os_remove E x dp = Inl e
         \<and> list_dir C E dp = Inr remaining
         \<and> update_count C E now None (Some (int (length remaining))) dp = (Inr (), d')
         \<and> (\<forall>y. y \<noteq> count_filename C \<and> y \<noteq> tmp_name (count_filename C) \<longrightarrow>
               map_of d' y = (if y \<in> set pre then None else map_of d y))"
proof -
  from c obtain ns where l: "list_dir C E d = Inr ns" and cl: "clear_loop C E now ns d = (Inr False, d')"
    by (auto simp: clear_def split: sum.splits)
  from clear_loop_False [OF cl] obtain pre x post dp e remaining where
    h: "ns = pre @ x # post" "remove_each E pre d = Inr dp" "os_remove E x dp = Inl e"
       "list_dir C E dp = Inr remaining"
       "update_count C E now None (Some (int (length remaining))) dp = (Inr (), d')"
    by blast
  have "\<forall>y. y \<noteq> count_filename C \<and> y \<noteq> tmp_name (count_filename C) \<longrightarrow>
               map_of d' y = (if y \<in> set pre then None else map_of d y)"
    using update_count_frame [OF h(5)] remove_each_Inr [OF h(2)] by simp
  with l h show ?thesis by blast
qed

subsection \<open>The management file under get, delete, set and the sweep\<close>

lemma counter_kept_trans:
  "counter_kept C E d d1 \<Longrightarrow> counter_kept C E d1 d2 \<Longrightarrow> counter_kept C E d d2"
  by metis

lemma set_write_trace_nonempty: "set_write_trace E f b d \<noteq> []"
  by (simp add: set_write_trace_def Let_def)

lemma set_write_target:
  "map_of (snd (set_write E f b d)) f = map_of d f
   \<or> map_of (snd (set_write E f b d)) f = None
   \<or> map_of (snd (set_write E f b d)) f = Some b"
proof -
  have "last (set_write_trace E f b d) \<in> set (set_write_trace E f b d)"
    by (rule last_in_set) (rule set_write_trace_nonempty)
  from set_write_trace_target [OF this] show ?thesis
    by (simp add: set_write_last_trace)
qed

lemma set_mgmt_counter:
  "counter_kept C E d (snd (set_mgmt C E now fs_count_file (PInt n) d))"
proof (cases "serialize C E (PList [PInt 0, PInt n])")
  case (Inl e)
  then show ?thesis by (simp add: set_mgmt_def normalize_timeout_0)
next
  case (Inr b)
  have "snd (set_mgmt C E now fs_count_file (PInt n) d) = snd (set_write E (count_filename C) b d)"
    using Inr by (simp add: set_mgmt_def normalize_timeout_0 count_filename_def
        split: prod.splits sum.splits)
  with set_write_target [of E "count_filename C" b d] Inr show ?thesis by metis
qed

lemma knot_counter:
  "counter_kept C E d (snd (get C E now key d))"
  "counter_kept C E d (snd (delete C E now key m d))"
  "counter_kept C E d (snd (update_count C E now dl v d))"
proof (induct C E now key d and C E now key m d and C E now dl v d
    rule: get_delete_update_count.induct)
  case (1 C E now key d)
  show ?case
  proof (cases "read_entry C E (get_filename C key) d")
    case (Inl e)
    then show ?thesis by (simp add: get.simps)
  next
    case (Inr p)
    obtain expires val where p: "p = (expires, val)" by (cases p)
    show ?thesis
    proof (cases "py_expired_lt expires now")
      case (Inl e)
      then show ?thesis using Inr p by (simp add: get.simps)
    next
      case st: (Inr stale)
      show ?thesis
      proof (cases stale)
        case True
        have "snd (get C E now key d) = snd (delete C E now key False d)"
          using Inr p st True by (simp add: get.simps)
        with 1 [OF Inr p [symmetric] st True] show ?thesis by simp
      next
        case False
        then show ?thesis using Inr p st by (simp add: get.simps)
      qed
    qed
  qed
next
  case (2 C E now key m d)
  show ?case
  proof (cases "os_remove E (get_filename C key) d")
    case (Inl e)
    then show ?thesis by (simp add: delete.simps)
  next
    case (Inr d1)
    have k1: "counter_kept C E d d1"
    proof -
      from os_remove_Inr [OF Inr, THEN conjunct1]
      have "map_of d1 (count_filename C)
          = (if get_filename C key = count_filename C then None else map_of d (count_filename C))"
        by simp
      then show ?thesis by (simp split: if_splits)
    qed
    show ?thesis
    proof (cases m)
      case True
      then show ?thesis using Inr k1 by (simp add: delete.simps)
    next
      case False
      have "snd (delete C E now key m d) = snd (update_count C E now (Some (- 1)) None d1)"
        using Inr False by (simp add: delete.simps snd_case_result)
      with counter_kept_trans [OF k1 2 [OF Inr False]] show ?thesis by simp
    qed
  qed
next
  case (3 C E now dl v d)
  show ?case
  proof (cases "threshold C = 0")
    case True
    then show ?thesis by (simp add: update_count_disabled)
  next
    case th: False
    show ?thesis
    proof (cases "dl = None \<or> dl = Some 0")
      case True
      have "snd (update_count C E now dl v d)
          = snd (set_mgmt C E now fs_count_file (PInt (case v of None \<Rightarrow> 0 | Some n \<Rightarrow> n)) d)"
        by (simp add: update_count_value [OF th True] snd_case_result)
      with set_mgmt_counter show ?thesis by simp
    next
      case False
      then obtain k where k: "dl = Some k" "k \<noteq> 0" by (cases dl) auto
      obtain cnt d1 where g: "get C E now fs_count_file d = (cnt, d1)"
        by (cases "get C E now fs_count_file d")
      from 3 [OF th] k g have k1: "counter_kept C E d d1" by simp
      note u = update_count_delta [OF th k g]
      show ?thesis
      proof (cases "py_add_int (py_or0 cnt) k")
        case (Inl e)
        then have "snd (update_count C E now dl v d) = d1" by (simp add: u)
        with k1 show ?thesis by simp
      next
        case (Inr new_count)
        then obtain n where n: "new_count = PInt n"
          by (cases "py_or0 cnt") auto
        have "snd (update_count C E now dl v d)
            = snd (set_mgmt C E now fs_count_file (PInt n) d1)"
          using Inr n by (simp add: u snd_case_result)
        with counter_kept_trans [OF k1 set_mgmt_counter [where C = C and E = E and d = d1 and now = now and n = n]] show ?thesis by simp
      qed
    qed
  qed
qed






subsection \<open>The eviction sweep\<close>










subsection \<open>The directory after a lazy delete\<close>

lemma delete_unfold:
  assumes "map_of d (get_filename C key) \<noteq> None"
    and "\<not> faults E (OpRemove (get_filename C key))"
  shows "snd (delete C E now key False d)
       = snd (update_count C E now (Some (- 1)) None (AList.delete (get_filename C key) d))"
proof -
  from assms have "os_remove E (get_filename C key) d = Inr (AList.delete (get_filename C key) d)"
    by (auto simp: os_remove_def)
  then show ?thesis by (simp add: delete.simps snd_case_result)
qed

section \<open>Properties\<close>

subsection \<open>C1: what \<^verbatim>\<open>set\<close> lets through\<close>

text \<open>
  C1 says that \<^verbatim>\<open>set\<close> never raises: every I/O or encode error, serialization
  of the value included, is reported as a false return. In the source
  \<^verbatim>\<open>self._serialize([timeout, value])\<close> stands before the \<^verbatim>\<open>try\<close> block. On a
  freshly constructed cache, storing an object that the encoder refuses leaves
  \<^verbatim>\<open>set\<close> with the encoder's exception instead of returning \<open>False\<close>.
\<close>

theorem C1_set_raises_on_unencodable_value:
  "init demo_config demo_env 0 [] = (Inr (), [(''c0'', [0, 0, 0, 0])])
   \<and> set_op demo_config demo_env 0 ''a'' (PObj 0) None False [(''c0'', [0, 0, 0, 0])]
       = (Inl EncodeError, [(''c0'', [0, 0, 0, 0])])"
  by code_simp

subsection \<open>C2: temporary files and the directory listing\<close>

text \<open>
  C2 says that a temporary file left by \<^verbatim>\<open>set\<close> is never returned by
  \<^verbatim>\<open>_list_dir\<close>. The listing filters names ending in \<^verbatim>\<open>.__wz_cache\<close>
  (\<^verbatim>\<open>_fs_transaction_suffix\<close>), but \<^verbatim>\<open>set\<close> names its temporary file
  \<^verbatim>\<open>filename + ".__tmp"\<close>. When the rename fails, \<^verbatim>\<open>set\<close> returns \<open>False\<close>, the
  temporary file stays, and the listing returns it.
\<close>

theorem C2_leftover_tmp_file_is_listed:
  "init demo_config demo_env 0 [] = (Inr (), [(''c0'', [0, 0, 0, 0])])
   \<and> set_op demo_config (demo_env\<lparr>faults := replace_fails\<rparr>) 0 ''a'' (PInt 7) None False
         [(''c0'', [0, 0, 0, 0])]
       = (Inr False, [(''c0'', [0, 0, 0, 0]), (''a1.__tmp'', [0, 300, 0, 7])])
   \<and> list_dir demo_config demo_env [(''c0'', [0, 0, 0, 0]), (''a1.__tmp'', [0, 300, 0, 7])]
       = Inr [''a1.__tmp'']"
  by code_simp

subsection \<open>C3: how a write replaces the file\<close>




subsection \<open>C4: storing a value and reading it back\<close>

text \<open>
  C4 says that a successful \<^verbatim>\<open>set(k, v)\<close> followed at once by \<^verbatim>\<open>get(k)\<close> returns
  \<open>v\<close>, for every key. The reserved key \<^verbatim>\<open>"__wz_cache_count"\<close> is a key like any
  other to \<^verbatim>\<open>set\<close>. When the constructor could not write the counter (its
  result is not looked at), the management file is missing; \<^verbatim>\<open>set\<close> of the
  reserved key then creates it, counts it as a new entry and overwrites the
  value just stored with the count: 5 is stored, 6 is read back.
\<close>

theorem C4_reserved_key_reads_back_changed:
  "init demo_config (demo_env\<lparr>faults := open_w_fails\<rparr>) 0 [] = (Inr (), [])
   \<and> set_op demo_config demo_env 0 fs_count_file (PInt 5) None False []
       = (Inr True, [(''c0'', [0, 0, 0, 6])])
   \<and> get demo_config demo_env 0 fs_count_file [(''c0'', [0, 0, 0, 6])]
       = (PInt 6, [(''c0'', [0, 0, 0, 6])])"
  by code_simp

text \<open>
  C4 as amended: a \<^verbatim>\<open>set\<close> that returned \<open>True\<close> followed by a \<^verbatim>\<open>get\<close> whose read
  does not fail, before the entry's expiry, returns the value and leaves the
  directory as it is, for every value that the codec reads back as written and
  every key, provided that counting is off (threshold 0), or the key's file
  exists when the write happens (an overwrite, which the counter does not
  count), or the key's file is neither the management file nor the management
  file's temporary sibling.
\<close>

theorem C4_roundtrip:
  assumes "set_op C E now key v timeout False d = (Inr True, d')"
    and "threshold C = 0
      \<or> os_path_exists (snd (prune C E now d)) (get_filename C key)
      \<or> (get_filename C key \<noteq> count_filename C
          \<and> get_filename C key \<noteq> tmp_name (count_filename C))"
    and "\<forall>b. serialize C E (PList [PInt (normalize_timeout C now timeout), v]) = Inr b
        \<longrightarrow> deserialize C E b = Inr (PList [PInt (normalize_timeout C now timeout), v])"
    and "\<not> faults E (OpRead (get_filename C key))"
    and "\<not> (normalize_timeout C now timeout \<noteq> 0
            \<and> of_int (normalize_timeout C now timeout) < now')"
  shows "get C E now' key d' = (v, d')"
  by (rule set_then_get [OF assms])

theorem C4_witness:
  "set_op demo_config demo_env 0 ''a'' (PInt 7) None False [(''c0'', [0, 0, 0, 0])]
     = (Inr True, [(''a1'', [0, 300, 0, 7]), (''c0'', [0, 0, 0, 1])])
   \<and> get demo_config demo_env 299 ''a'' [(''a1'', [0, 300, 0, 7]), (''c0'', [0, 0, 0, 1])]
     = (PInt 7, [(''a1'', [0, 300, 0, 7]), (''c0'', [0, 0, 0, 1])])
   \<and> set_op demo_config demo_env 0 fs_count_file (PInt 5) None False [(''c0'', [0, 0, 0, 0])]
     = (Inr True, [(''c0'', [0, 300, 0, 5])])
   \<and> get demo_config demo_env 299 fs_count_file [(''c0'', [0, 300, 0, 5])]
     = (PInt 5, [(''c0'', [0, 300, 0, 5])])"
proof -
  have 1: "set_op demo_config demo_env 0 ''a'' (PInt 7) None False [(''c0'', [0, 0, 0, 0])]
     = (Inr True, [(''a1'', [0, 300, 0, 7]), (''c0'', [0, 0, 0, 1])])"
    by code_simp
  have f: "get_filename demo_config ''a'' \<noteq> count_filename demo_config
      \<and> get_filename demo_config ''a'' \<noteq> tmp_name (count_filename demo_config)"
    by code_simp
  then have 2: "threshold demo_config = 0
      \<or> os_path_exists (snd (prune demo_config demo_env 0 [(''c0'', [0, 0, 0, 0])]))
           (get_filename demo_config ''a'')
      \<or> (get_filename demo_config ''a'' \<noteq> count_filename demo_config
          \<and> get_filename demo_config ''a'' \<noteq> tmp_name (count_filename demo_config))"
    by blast
  have t: "normalize_timeout demo_config 0 None = 300"
    by (simp add: normalize_timeout_def base_normalize_timeout_def demo_config_def py_int_def)
  have 4: "\<forall>b. serialize demo_config demo_env (PList [PInt (normalize_timeout demo_config 0 None), PInt 7]) = Inr b
        \<longrightarrow> deserialize demo_config demo_env b
            = Inr (PList [PInt (normalize_timeout demo_config 0 None), PInt 7])"
    unfolding t by (simp add: serialize_def deserialize_def demo_config_def demo_env_def)
  have 5: "\<not> faults demo_env (OpRead (get_filename demo_config ''a''))"
    by (simp add: demo_env_def no_fault_def)
  have 6: "\<not> (normalize_timeout demo_config 0 None \<noteq> 0
            \<and> of_int (normalize_timeout demo_config 0 None) < (299::rat))"
    unfolding t by simp
  note A = C4_roundtrip [OF 1 2 4 5 6]
  have r1: "set_op demo_config demo_env 0 fs_count_file (PInt 5) None False [(''c0'', [0, 0, 0, 0])]
     = (Inr True, [(''c0'', [0, 300, 0, 5])])"
    by code_simp
  have e: "os_path_exists (snd (prune demo_config demo_env 0 [(''c0'', [0, 0, 0, 0])]))
           (get_filename demo_config fs_count_file)"
    by code_simp
  then have r2: "threshold demo_config = 0
      \<or> os_path_exists (snd (prune demo_config demo_env 0 [(''c0'', [0, 0, 0, 0])]))
           (get_filename demo_config fs_count_file)
      \<or> (get_filename demo_config fs_count_file \<noteq> count_filename demo_config
          \<and> get_filename demo_config fs_count_file \<noteq> tmp_name (count_filename demo_config))"
    by blast
  have r4: "\<forall>b. serialize demo_config demo_env (PList [PInt (normalize_timeout demo_config 0 None), PInt 5]) = Inr b
        \<longrightarrow> deserialize demo_config demo_env b
            = Inr (PList [PInt (normalize_timeout demo_config 0 None), PInt 5])"
    unfolding t by (simp add: serialize_def deserialize_def demo_config_def demo_env_def)
  have r5: "\<not> faults demo_env (OpRead (get_filename demo_config fs_count_file))"
    by (simp add: demo_env_def no_fault_def)
  note B = C4_roundtrip [OF r1 r2 r4 r5 6]
  from A B 1 r1 show ?thesis by simp
qed

subsection \<open>C5: the eviction sweep\<close>




subsection \<open>C6: expiry at read time\<close>

text \<open>
  C6 says that \<^verbatim>\<open>get\<close> on a stale entry deletes the backing file and returns no
  value, for every key. For the reserved key the file is removed and the
  counter update that \<^verbatim>\<open>delete\<close> runs writes it again. On a fresh cache,
  \<^verbatim>\<open>set("__wz_cache_count", 5, 1)\<close> at time 3 stores expiry 4; \<^verbatim>\<open>get\<close> of the
  key at time 10 returns no value, but the backing file is there afterwards,
  holding the count \<open>-1\<close>, and the next \<^verbatim>\<open>get\<close> of the key returns \<open>-1\<close>.
\<close>

theorem C6_reserved_key_file_comes_back:
  "init demo_config demo_env 0 [] = (Inr (), [(''c0'', [0, 0, 0, 0])])
   \<and> set_op demo_config demo_env 3 fs_count_file (PInt 5) (Some 1) False [(''c0'', [0, 0, 0, 0])]
       = (Inr True, [(''c0'', [0, 4, 0, 5])])
   \<and> read_entry demo_config demo_env (get_filename demo_config fs_count_file)
         [(''c0'', [0, 4, 0, 5])]
       = Inr (PInt 4, PInt 5)
   \<and> get demo_config demo_env 10 fs_count_file [(''c0'', [0, 4, 0, 5])]
       = (PNone, [(''c0'', [0, 0, 1, 1])])
   \<and> os_path_exists (snd (get demo_config demo_env 10 fs_count_file [(''c0'', [0, 4, 0, 5])]))
         (get_filename demo_config fs_count_file)
   \<and> get demo_config demo_env 10 fs_count_file [(''c0'', [0, 0, 1, 1])]
       = (PInt (- 1), [(''c0'', [0, 0, 1, 1])])"
  by code_simp

text \<open>
  C6 as amended: when the backing file of a key decodes to an integer expiry
  and a value, a stale entry (expiry not 0 and less than the clock) makes
  \<^verbatim>\<open>get\<close> return no value and run \<^verbatim>\<open>delete\<close> on the key: unless the removal
  fails, the directory that \<^verbatim>\<open>get\<close> leaves is the one with the backing file
  deleted, after the counter update by \<open>-1\<close> that \<^verbatim>\<open>delete\<close> runs; the file is
  then absent provided it is neither the management file nor its temporary
  sibling, which that update writes. Otherwise \<^verbatim>\<open>get\<close> returns the stored value
  and changes nothing; an entry of expiry 0 is returned at every time, and a
  timeout of 0 is stored as expiry 0 whatever the clock and the default
  timeout are.
\<close>

theorem C6_get_expiry_semantics:
  "(read_entry C E (get_filename C key) d = Inr (PInt e, v) \<longrightarrow>
      (e \<noteq> 0 \<and> of_int e < now \<longrightarrow>
          get C E now key d = (PNone, snd (delete C E now key False d))
        \<and> (\<not> faults E (OpRemove (get_filename C key)) \<longrightarrow>
             snd (get C E now key d)
               = snd (update_count C E now (Some (- 1)) None
                        (AList.delete (get_filename C key) d))
           \<and> (get_filename C key \<noteq> count_filename C
                \<and> get_filename C key \<noteq> tmp_name (count_filename C)
               \<longrightarrow> map_of (snd (get C E now key d)) (get_filename C key) = None)))
    \<and> (\<not> (e \<noteq> 0 \<and> of_int e < now) \<longrightarrow> get C E now key d = (v, d))
    \<and> (e = 0 \<longrightarrow> (\<forall>now'. get C E now' key d = (v, d))))
   \<and> normalize_timeout C now0 (Some 0) = 0"
proof (intro conjI impI allI)
  assume r: "read_entry C E (get_filename C key) d = Inr (PInt e, v)"
    and s: "e \<noteq> 0 \<and> of_int e < now"
  show g: "get C E now key d = (PNone, snd (delete C E now key False d))"
    by (rule get_stale [OF r s])
  assume nf: "\<not> faults E (OpRemove (get_filename C key))"
  show "snd (get C E now key d)
      = snd (update_count C E now (Some (- 1)) None (AList.delete (get_filename C key) d))"
    using delete_unfold [OF read_entry_exists [OF r] nf, of now] g by simp
  assume "get_filename C key \<noteq> count_filename C
                \<and> get_filename C key \<noteq> tmp_name (count_filename C)"
  then show "map_of (snd (get C E now key d)) (get_filename C key) = None"
    using delete_removes [OF read_entry_exists [OF r] nf, where now = now] g by simp
next
  assume "read_entry C E (get_filename C key) d = Inr (PInt e, v)"
    and "\<not> (e \<noteq> 0 \<and> of_int e < now)"
  then show "get C E now key d = (v, d)" by (rule get_not_stale)
next
  fix now'
  assume "read_entry C E (get_filename C key) d = Inr (PInt e, v)" and "e = 0"
  then show "get C E now' key d = (v, d)" by (intro get_not_stale [where e = e]) simp_all
next
  show "normalize_timeout C now0 (Some 0) = 0" by (rule normalize_timeout_0)
qed

theorem C6_witness:
  "get demo_config demo_env 10 ''a'' [(''a1'', [0, 5, 0, 7]), (''c0'', [0, 0, 0, 1])]
     = (PNone, [(''c0'', [0, 0, 0, 0])])
   \<and> map_of (snd (get demo_config demo_env 10 ''a'' [(''a1'', [0, 5, 0, 7]), (''c0'', [0, 0, 0, 1])]))
        (get_filename demo_config ''a'') = None
   \<and> get demo_config demo_env 5 ''a'' [(''a1'', [0, 5, 0, 7]), (''c0'', [0, 0, 0, 1])]
     = (PInt 7, [(''a1'', [0, 5, 0, 7]), (''c0'', [0, 0, 0, 1])])
   \<and> set_op demo_config demo_env 0 ''a'' (PInt 7) (Some 0) False [(''c0'', [0, 0, 0, 0])]
     = (Inr True, [(''a1'', [0, 0, 0, 7]), (''c0'', [0, 0, 0, 1])])
   \<and> get demo_config demo_env 1000000000 ''a'' [(''a1'', [0, 0, 0, 7]), (''c0'', [0, 0, 0, 1])]
     = (PInt 7, [(''a1'', [0, 0, 0, 7]), (''c0'', [0, 0, 0, 1])])"
proof -
  let ?stale = "[(''a1'', [0::nat, 5, 0, 7]), (''c0'', [0, 0, 0, 1])]"
  let ?init = "[(''c0'', [0::nat, 0, 0, 0])]"
  let ?after = "[(''a1'', [0::nat, 0, 0, 7]), (''c0'', [0, 0, 0, 1])]"
  have r: "read_entry demo_config demo_env (get_filename demo_config ''a'') ?stale
      = Inr (PInt 5, PInt 7)"
    by code_simp
  have r0: "read_entry demo_config demo_env (get_filename demo_config ''a'') ?after
      = Inr (PInt 0, PInt 7)"
    by code_simp
  have del: "snd (delete demo_config demo_env 10 ''a'' False ?stale) = [(''c0'', [0, 0, 0, 0])]"
    by code_simp
  have nf: "\<not> faults demo_env (OpRemove (get_filename demo_config ''a''))"
    by (simp add: demo_env_def no_fault_def)
  have f: "get_filename demo_config ''a'' \<noteq> count_filename demo_config"
    "get_filename demo_config ''a'' \<noteq> tmp_name (count_filename demo_config)"
    by code_simp+
  have s: "set_op demo_config demo_env 0 ''a'' (PInt 7) (Some 0) False ?init = (Inr True, ?after)"
    by code_simp
  note A = C6_get_expiry_semantics [of demo_config demo_env "''a''" ?stale 5 "PInt 7" 10 0]
  note B = C6_get_expiry_semantics [of demo_config demo_env "''a''" ?stale 5 "PInt 7" 5 0]
  note Z = C6_get_expiry_semantics [of demo_config demo_env "''a''" ?after 0 "PInt 7" 0 0]
  have e: "(5::int) \<noteq> 0 \<and> of_int (5::int) < (10::rat)"
    "\<not> ((5::int) \<noteq> 0 \<and> of_int (5::int) < (5::rat))"
    by simp_all
  from A r e(1)
  have "get demo_config demo_env 10 ''a'' ?stale
      = (PNone, snd (delete demo_config demo_env 10 ''a'' False ?stale))"
    by blast
  with del have 1: "get demo_config demo_env 10 ''a'' ?stale = (PNone, [(''c0'', [0, 0, 0, 0])])"
    by simp
  from A r e(1) nf f
  have 2: "map_of (snd (get demo_config demo_env 10 ''a'' ?stale)) (get_filename demo_config ''a'') = None"
    by blast
  from B r e(2) have 3: "get demo_config demo_env 5 ''a'' ?stale = (PInt 7, ?stale)"
    by blast
  from Z r0 have 4: "get demo_config demo_env 1000000000 ''a'' ?after = (PInt 7, ?after)"
    by blast
  from 1 2 3 4 s show ?thesis by simp
qed

subsection \<open>C7: add\<close>

text \<open>
  C7 says that after a successful \<^verbatim>\<open>add(k, v1)\<close> a later \<^verbatim>\<open>add(k, v2)\<close> fails and
  \<^verbatim>\<open>get(k)\<close> still yields \<open>v1\<close>. \<^verbatim>\<open>add\<close> looks at the existence of the file only,
  not at its expiry: with the default timeout of 300 seconds, a second \<^verbatim>\<open>add\<close>
  at time 1000 fails because the stale file is still there, and \<^verbatim>\<open>get\<close> returns
  no value.
\<close>

theorem C7_first_value_gone_after_expiry:
  "add demo_config demo_env 0 ''a'' (PInt 7) None [(''c0'', [0, 0, 0, 0])]
       = (Inr True, [(''a1'', [0, 300, 0, 7]), (''c0'', [0, 0, 0, 1])])
   \<and> add demo_config demo_env 1000 ''a'' (PInt 8) None
         [(''a1'', [0, 300, 0, 7]), (''c0'', [0, 0, 0, 1])]
       = (Inr False, [(''a1'', [0, 300, 0, 7]), (''c0'', [0, 0, 0, 1])])
   \<and> get demo_config demo_env 1000 ''a'' [(''a1'', [0, 300, 0, 7]), (''c0'', [0, 0, 0, 1])]
       = (PNone, [(''c0'', [0, 0, 0, 0])])"
  by code_simp

text \<open>
  C7 as amended: \<^verbatim>\<open>add\<close> returns \<open>False\<close> and changes nothing when the key's file
  exists, stale or not, and is \<^verbatim>\<open>set\<close> otherwise. After an \<^verbatim>\<open>add\<close> that returned
  \<open>True\<close> every later \<^verbatim>\<open>add\<close> of the key returns \<open>False\<close> and changes nothing, and a
  \<^verbatim>\<open>get\<close> before the entry's expiry returns the first value; this for every key,
  provided that counting is off, or the key's file exists when the write
  happens, or the key's file is neither the management file nor its temporary
  sibling.
\<close>

theorem C7_add_keeps_first_value:
  "(os_path_exists d0 (get_filename C key) \<longrightarrow> add C E now0 key v t d0 = (Inr False, d0))
   \<and> (\<not> os_path_exists d0 (get_filename C key) \<longrightarrow>
         add C E now0 key v t d0 = set_op C E now0 key v t False d0)
   \<and> (add C E now key v1 t1 d = (Inr True, d1)
        \<and> (threshold C = 0
           \<or> os_path_exists (snd (prune C E now d)) (get_filename C key)
           \<or> (get_filename C key \<noteq> count_filename C
               \<and> get_filename C key \<noteq> tmp_name (count_filename C))) \<longrightarrow>
          add C E now2 key v2 t2 d1 = (Inr False, d1)
        \<and> ((\<forall>b. serialize C E (PList [PInt (normalize_timeout C now t1), v1]) = Inr b
               \<longrightarrow> deserialize C E b = Inr (PList [PInt (normalize_timeout C now t1), v1]))
           \<and> \<not> faults E (OpRead (get_filename C key))
           \<and> \<not> (normalize_timeout C now t1 \<noteq> 0 \<and> of_int (normalize_timeout C now t1) < now3)
           \<longrightarrow> get C E now3 key d1 = (v1, d1)))"
proof (intro conjI impI)
  assume "os_path_exists d0 (get_filename C key)"
  then show "add C E now0 key v t d0 = (Inr False, d0)" by (rule add_exists)
next
  assume "\<not> os_path_exists d0 (get_filename C key)"
  then show "add C E now0 key v t d0 = set_op C E now0 key v t False d0" by (simp add: add_def)
next
  assume a: "add C E now key v1 t1 d = (Inr True, d1)
        \<and> (threshold C = 0
           \<or> os_path_exists (snd (prune C E now d)) (get_filename C key)
           \<or> (get_filename C key \<noteq> count_filename C
               \<and> get_filename C key \<noteq> tmp_name (count_filename C)))"
  then have s: "set_op C E now key v1 t1 False d = (Inr True, d1)"
    by (auto simp: add_def split: if_splits)
  from a have safe: "threshold C = 0
           \<or> os_path_exists (snd (prune C E now d)) (get_filename C key)
           \<or> (get_filename C key \<noteq> count_filename C
               \<and> get_filename C key \<noteq> tmp_name (count_filename C))"
    by simp
  from set_op_stores [OF s safe] have "os_path_exists d1 (get_filename C key)"
    by (auto simp: os_path_exists_def)
  then show "add C E now2 key v2 t2 d1 = (Inr False, d1)" by (rule add_exists)
  assume "(\<forall>b. serialize C E (PList [PInt (normalize_timeout C now t1), v1]) = Inr b
               \<longrightarrow> deserialize C E b = Inr (PList [PInt (normalize_timeout C now t1), v1]))
           \<and> \<not> faults E (OpRead (get_filename C key))
           \<and> \<not> (normalize_timeout C now t1 \<noteq> 0 \<and> of_int (normalize_timeout C now t1) < now3)"
  then show "get C E now3 key d1 = (v1, d1)"
    by (intro set_then_get [OF s safe]) simp_all
qed

theorem C7_witness:
  "add demo_config demo_env 0 ''a'' (PInt 7) None [(''c0'', [0, 0, 0, 0])]
     = (Inr True, [(''a1'', [0, 300, 0, 7]), (''c0'', [0, 0, 0, 1])])
   \<and> add demo_config demo_env 1 ''a'' (PInt 8) None [(''a1'', [0, 300, 0, 7]), (''c0'', [0, 0, 0, 1])]
     = (Inr False, [(''a1'', [0, 300, 0, 7]), (''c0'', [0, 0, 0, 1])])
   \<and> get demo_config demo_env 2 ''a'' [(''a1'', [0, 300, 0, 7]), (''c0'', [0, 0, 0, 1])]
     = (PInt 7, [(''a1'', [0, 300, 0, 7]), (''c0'', [0, 0, 0, 1])])"
proof -
  let ?init = "[(''c0'', [0::nat, 0, 0, 0])]"
  let ?after = "[(''a1'', [0::nat, 300, 0, 7]), (''c0'', [0, 0, 0, 1])]"
  have a: "add demo_config demo_env 0 ''a'' (PInt 7) None ?init = (Inr True, ?after)"
    by code_simp
  have f: "get_filename demo_config ''a'' \<noteq> count_filename demo_config"
    "get_filename demo_config ''a'' \<noteq> tmp_name (count_filename demo_config)"
    by code_simp+
  have t: "normalize_timeout demo_config 0 None = 300"
    by (simp add: normalize_timeout_def base_normalize_timeout_def demo_config_def py_int_def)
  have c: "\<forall>b. serialize demo_config demo_env (PList [PInt (normalize_timeout demo_config 0 None), PInt 7]) = Inr b
        \<longrightarrow> deserialize demo_config demo_env b
            = Inr (PList [PInt (normalize_timeout demo_config 0 None), PInt 7])"
    unfolding t by (simp add: serialize_def deserialize_def demo_config_def demo_env_def)
  have nf: "\<not> faults demo_env (OpRead (get_filename demo_config ''a''))"
    by (simp add: demo_env_def no_fault_def)
  have l: "\<not> (normalize_timeout demo_config 0 None \<noteq> 0
            \<and> of_int (normalize_timeout demo_config 0 None) < (2::rat))"
    unfolding t by simp
  note T = C7_add_keeps_first_value [of ?after demo_config "''a''" demo_env 1 "PInt 8" None
      0 "PInt 7" None ?init ?after 1 "PInt 8" None 2]
  from T a f have 1: "add demo_config demo_env 1 ''a'' (PInt 8) None ?after = (Inr False, ?after)"
    by blast
  from T a f c nf l have 2: "get demo_config demo_env 2 ''a'' ?after = (PInt 7, ?after)"
    by blast
  from a 1 2 show ?thesis by simp
qed

subsection \<open>C8: clear\<close>

text \<open>
  C8 says that after a successful \<^verbatim>\<open>clear\<close>, \<^verbatim>\<open>get\<close> returns no value for every
  key set before. The management file is not among the files \<^verbatim>\<open>clear\<close> removes,
  and the reserved key reads it: after \<^verbatim>\<open>set("__wz_cache_count", 5)\<close> and a
  successful \<^verbatim>\<open>clear\<close>, \<^verbatim>\<open>get("__wz_cache_count")\<close> returns the count 0 that
  \<^verbatim>\<open>clear\<close> wrote, not "no value".
\<close>

theorem C8_reserved_key_survives_clear:
  "init demo_config demo_env 0 [] = (Inr (), [(''c0'', [0, 0, 0, 0])])
   \<and> set_op demo_config demo_env 0 fs_count_file (PInt 5) None False [(''c0'', [0, 0, 0, 0])]
       = (Inr True, [(''c0'', [0, 300, 0, 5])])
   \<and> clear demo_config demo_env 0 [(''c0'', [0, 300, 0, 5])]
       = (Inr True, [(''c0'', [0, 0, 0, 0])])
   \<and> get demo_config demo_env 0 fs_count_file [(''c0'', [0, 0, 0, 0])]
       = (PInt 0, [(''c0'', [0, 0, 0, 0])])"
  by code_simp

text \<open>
  C8 as amended. When \<^verbatim>\<open>clear\<close> returns \<open>True\<close>: every file is gone except the
  management file, its temporary sibling and files with the transaction suffix
  (which the listing never returns); \<^verbatim>\<open>get\<close> returns no value for every key whose
  file is none of these; and, when counting is enabled, no system call fails
  and the codec reads the record \<open>[0, 0]\<close> back, the count reads 0 and the
  listing is empty. When \<^verbatim>\<open>clear\<close> returns \<open>False\<close>: the listed names split into
  those removed, the first one whose removal failed and the rest; the counter
  is written from a fresh listing of the directory as the removals left it;
  apart from the management file and its sibling, the removed files stay
  removed and every other file is as before.
\<close>

theorem C8_clear:
  "(clear C E now d = (Inr True, d') \<longrightarrow>
      (\<forall>x. x \<noteq> count_filename C \<and> x \<noteq> tmp_name (count_filename C)
            \<and> \<not> endswith x fs_transaction_suffix \<longrightarrow> map_of d' x = None)
    \<and> (\<forall>key now'. get_filename C key \<noteq> count_filename C
            \<and> get_filename C key \<noteq> tmp_name (count_filename C)
            \<and> \<not> endswith (get_filename C key) fs_transaction_suffix
           \<longrightarrow> get C E now' key d' = (PNone, d'))
    \<and> (threshold C \<noteq> 0 \<and> (\<forall>op. \<not> faults E op)
         \<and> (\<forall>b. serialize C E (PList [PInt 0, PInt 0]) = Inr b
               \<longrightarrow> deserialize C E b = Inr (PList [PInt 0, PInt 0]))
        \<longrightarrow> (\<forall>now'. file_count C E now' d' = (PInt 0, d')) \<and> list_dir C E d' = Inr []))
   \<and> (clear C E now d = (Inr False, d') \<longrightarrow>
        (\<exists>pre x post dp e remaining.
           list_dir C E d = Inr (pre @ x # post)
         \<and> remove_each E pre d = Inr dp
         \<and> os_remove E x dp = Inl e
         \<and> list_dir C E dp = Inr remaining
         \<and> update_count C E now None (Some (int (length remaining))) dp = (Inr (), d')
         \<and> (\<forall>y. y \<noteq> count_filename C \<and> y \<noteq> tmp_name (count_filename C) \<longrightarrow>
               map_of d' y = (if y \<in> set pre then None else map_of d y))))"
proof (intro conjI impI allI)
  fix x
  assume "clear C E now d = (Inr True, d')"
    and "x \<noteq> count_filename C \<and> x \<noteq> tmp_name (count_filename C)
            \<and> \<not> endswith x fs_transaction_suffix"
  then show "map_of d' x = None" by (intro clear_True_entries [of C E now d d' x]) simp_all
next
  fix key now'
  assume c: "clear C E now d = (Inr True, d')"
    and "get_filename C key \<noteq> count_filename C
            \<and> get_filename C key \<noteq> tmp_name (count_filename C)
            \<and> \<not> endswith (get_filename C key) fs_transaction_suffix"
  then have "map_of d' (get_filename C key) = None"
    by (intro clear_True_entries [OF c]) simp_all
  then show "get C E now' key d' = (PNone, d')" by (rule get_absent)
next
  fix now'
  assume "clear C E now d = (Inr True, d')"
    and "threshold C \<noteq> 0 \<and> (\<forall>op. \<not> faults E op)
         \<and> (\<forall>b. serialize C E (PList [PInt 0, PInt 0]) = Inr b
               \<longrightarrow> deserialize C E b = Inr (PList [PInt 0, PInt 0]))"
  then show "file_count C E now' d' = (PInt 0, d')"
    using clear_True_counter [of C E now d d' now'] by blast
next
  assume "clear C E now d = (Inr True, d')"
    and "threshold C \<noteq> 0 \<and> (\<forall>op. \<not> faults E op)
         \<and> (\<forall>b. serialize C E (PList [PInt 0, PInt 0]) = Inr b
               \<longrightarrow> deserialize C E b = Inr (PList [PInt 0, PInt 0]))"
  then show "list_dir C E d' = Inr []"
    using clear_True_counter [of C E now d d' 0] by blast
next
  assume "clear C E now d = (Inr False, d')"
  then show "\<exists>pre x post dp e remaining.
           list_dir C E d = Inr (pre @ x # post)
         \<and> remove_each E pre d = Inr dp
         \<and> os_remove E x dp = Inl e
         \<and> list_dir C E dp = Inr remaining
         \<and> update_count C E now None (Some (int (length remaining))) dp = (Inr (), d')
         \<and> (\<forall>y. y \<noteq> count_filename C \<and> y \<noteq> tmp_name (count_filename C) \<longrightarrow>
               map_of d' y = (if y \<in> set pre then None else map_of d y))"
    by (rule clear_False_shape)
qed

theorem C8_witness:
  "clear demo_config demo_env 0
     [(''a1'', [0, 300, 0, 5]), (''b2'', [0, 300, 0, 6]), (''c0'', [0, 0, 0, 2])]
     = (Inr True, [(''c0'', [0, 0, 0, 0])])
   \<and> get demo_config demo_env 5 ''a'' [(''c0'', [0, 0, 0, 0])] = (PNone, [(''c0'', [0, 0, 0, 0])])
   \<and> file_count demo_config demo_env 5 [(''c0'', [0, 0, 0, 0])] = (PInt 0, [(''c0'', [0, 0, 0, 0])])
   \<and> list_dir demo_config demo_env [(''c0'', [0, 0, 0, 0])] = Inr []
   \<and> clear demo_config (demo_env\<lparr>faults := remove_fails_for ''b2''\<rparr>) 0
     [(''a1'', [0, 300, 0, 5]), (''b2'', [0, 300, 0, 6]), (''c0'', [0, 0, 0, 2])]
     = (Inr False, [(''b2'', [0, 300, 0, 6]), (''c0'', [0, 0, 0, 1])])
   \<and> (\<exists>pre x post. list_dir demo_config (demo_env\<lparr>faults := remove_fails_for ''b2''\<rparr>)
          [(''a1'', [0, 300, 0, 5]), (''b2'', [0, 300, 0, 6]), (''c0'', [0, 0, 0, 2])]
        = Inr (pre @ x # post))"
proof -
  let ?full = "[(''a1'', [0::nat, 300, 0, 5]), (''b2'', [0, 300, 0, 6]), (''c0'', [0, 0, 0, 2])]"
  let ?empty = "[(''c0'', [0::nat, 0, 0, 0])]"
  let ?part = "[(''b2'', [0::nat, 300, 0, 6]), (''c0'', [0, 0, 0, 1])]"
  let ?F = "demo_env\<lparr>faults := remove_fails_for ''b2''\<rparr>"
  have c1: "clear demo_config demo_env 0 ?full = (Inr True, ?empty)"
    by code_simp
  have c2: "clear demo_config ?F 0 ?full = (Inr False, ?part)"
    by code_simp
  have f: "get_filename demo_config ''a'' \<noteq> count_filename demo_config
      \<and> get_filename demo_config ''a'' \<noteq> tmp_name (count_filename demo_config)
      \<and> \<not> endswith (get_filename demo_config ''a'') fs_transaction_suffix"
    by code_simp
  have h: "threshold demo_config \<noteq> 0 \<and> (\<forall>op. \<not> faults demo_env op)
         \<and> (\<forall>b. serialize demo_config demo_env (PList [PInt 0, PInt 0]) = Inr b
               \<longrightarrow> deserialize demo_config demo_env b = Inr (PList [PInt 0, PInt 0]))"
    by (simp add: serialize_def deserialize_def demo_config_def demo_env_def no_fault_def)
  note T1 = C8_clear [of demo_config demo_env 0 ?full ?empty]
  note T2 = C8_clear [of demo_config ?F 0 ?full ?part]
  from T1 c1 f have g: "get demo_config demo_env 5 ''a'' ?empty = (PNone, ?empty)"
    by blast
  from T1 c1 h have fc: "file_count demo_config demo_env 5 ?empty = (PInt 0, ?empty)
      \<and> list_dir demo_config demo_env ?empty = Inr []"
    by blast
  from T2 c2 have ex: "\<exists>pre x post. list_dir demo_config ?F ?full = Inr (pre @ x # post)"
    by blast
  from c1 c2 g fc ex show ?thesis by simp
qed

subsection \<open>C9: caller keys and the management file\<close>




subsection \<open>C10: the counter record never expires\<close>

text \<open>
  C10 says that the persisted counter record always has expiry 0, so that
  reading the count never meets an expired counter entry. The management
  writes do force the timeout to 0, but they are not the only writes of the
  management file: on a fresh cache \<^verbatim>\<open>set("__wz_cache_count", 42, 60)\<close> at time
  7 returns \<open>True\<close> and persists the record of expiry 67 in it. Reading the count
  at time 100 finds that record stale: the count reads 0, and the file is
  deleted and written again with the count \<open>-1\<close>.
\<close>

theorem C10_counter_record_expires_after_public_set:
  "init demo_config demo_env 0 [] = (Inr (), [(''c0'', [0, 0, 0, 0])])
   \<and> set_op demo_config demo_env 7 fs_count_file (PInt 42) (Some 60) False
         [(''c0'', [0, 0, 0, 0])]
       = (Inr True, [(''c0'', [0, 67, 0, 42])])
   \<and> read_entry demo_config demo_env (count_filename demo_config) [(''c0'', [0, 67, 0, 42])]
       = Inr (PInt 67, PInt 42)
   \<and> file_count demo_config demo_env 8 [(''c0'', [0, 67, 0, 42])]
       = (PInt 42, [(''c0'', [0, 67, 0, 42])])
   \<and> file_count demo_config demo_env 100 [(''c0'', [0, 67, 0, 42])]
       = (PInt 0, [(''c0'', [0, 0, 1, 1])])"
  by code_simp

text \<open>
  C10 as amended: a write of the management counter entry with
  \<^verbatim>\<open>mgmt_element=True\<close>, the only way \<^verbatim>\<open>_update_count\<close> writes, forces the timeout
  to 0 whatever the timeout argument and the default TTL are. The record it
  stores has expiry 0, and on the directory it leaves, reading the counter at
  any time returns the stored count and deletes nothing. Whatever
  \<^verbatim>\<open>_update_count\<close> does, it leaves the management file as it was, or absent,
  or holding a record of expiry 0 and an integer count. A record of another
  expiry gets into the management file only through a public \<^verbatim>\<open>set\<close> with the
  reserved key, and such a record does expire.
\<close>

theorem C10_counter_record_never_expires:
  assumes "set_op C E now fs_count_file v timeout True d = (Inr True, d')"
    and "\<forall>b. serialize C E (PList [PInt 0, v]) = Inr b
           \<longrightarrow> deserialize C E b = Inr (PList [PInt 0, v])"
    and "\<not> faults E (OpRead (get_filename C fs_count_file))"
  shows "(\<exists>b. serialize C E (PList [PInt 0, v]) = Inr b
            \<and> map_of d' (get_filename C fs_count_file) = Some b)
       \<and> get C E now' fs_count_file d' = (v, d')
       \<and> file_count C E now' d' = (py_or0 v, d')
       \<and> counter_kept C E d0 (snd (update_count C E now0 delta val d0))"
proof -
  from assms(1) have "set_mgmt C E now fs_count_file v d = (Inr True, d')"
    by (simp add: set_op_mgmt)
  from set_mgmt_True [OF this] obtain b where
    b: "serialize C E (PList [PInt 0, v]) = Inr b" and
    m: "map_of d' (get_filename C fs_count_file) = Some b"
    by auto
  from assms(2) b have "deserialize C E b = Inr (PList [PInt 0, v])" by blast
  with m assms(3) have g: "get C E now' fs_count_file d' = (v, d')"
    by (intro get_live [where t = 0 and b = b]) simp_all
  have k: "counter_kept C E d0 (snd (update_count C E now0 delta val d0))"
    by (rule knot_counter(3))
  have "(\<exists>b. serialize C E (PList [PInt 0, v]) = Inr b
            \<and> map_of d' (get_filename C fs_count_file) = Some b)
       \<and> get C E now' fs_count_file d' = (v, d')
       \<and> file_count C E now' d' = (py_or0 v, d')"
    using b m g by (simp add: file_count_def)
  with k show ?thesis by blast
qed

theorem C10_witness:
  "set_op demo_config demo_env 0 fs_count_file (PInt 3) (Some 60) True []
      = (Inr True, [(''c0'', [0, 0, 0, 3])])
   \<and> get demo_config demo_env 1000000 fs_count_file [(''c0'', [0, 0, 0, 3])]
      = (PInt 3, [(''c0'', [0, 0, 0, 3])])"
proof -
  have 1: "set_op demo_config demo_env 0 fs_count_file (PInt 3) (Some 60) True []
      = (Inr True, [(''c0'', [0, 0, 0, 3])])"
    by code_simp
  have 2: "\<forall>b. serialize demo_config demo_env (PList [PInt 0, PInt 3]) = Inr b
           \<longrightarrow> deserialize demo_config demo_env b = Inr (PList [PInt 0, PInt 3])"
    by (simp add: serialize_def deserialize_def demo_config_def demo_env_def)
  have 3: "\<not> faults demo_env (OpRead (get_filename demo_config fs_count_file))"
    by (simp add: demo_env_def no_fault_def)
  from C10_counter_record_never_expires [OF 1 2 3, where now' = 1000000] 1 show ?thesis by simp
qed

end
